theory Spec2Isabelle
  imports Main "HOL-Library.AList" "HOL-Library.Multiset"
begin

section \<open>The label selector of labelSelector.js\<close>

text \<open>
  A shallow embedding of \<^verbatim>\<open>src/labelSelector.js\<close>. JavaScript values are modelled by
  the types the code expects of them:
  \<^item> a label value, a key and an operator name are strings; \<^verbatim>\<open>undefined\<close> is \<open>None\<close>;
  \<^item> the \<^verbatim>\<open>_conjuncts\<close> object is an association list in property order (an assignment
    to an existing property keeps its place, a new property goes last, \<^verbatim>\<open>delete\<close> removes
    it), since \<^verbatim>\<open>for ... in\<close>, \<^verbatim>\<open>_.every\<close> and \<^verbatim>\<open>exportJSON\<close> walk it in that order;
  \<^item> a label object is a partial map from keys to values (own properties only);
  \<^item> the two operator tables are plain objects read at names that come from the input, so
    a read also finds the members inherited from \<^verbatim>\<open>Object.prototype\<close>;
  \<^item> reading \<^verbatim>\<open>.length\<close> of an \<^verbatim>\<open>undefined\<close> value list throws; the exception is the
    value \<open>Inl TypeError\<close>.
\<close>

datatype error = TypeError

text \<open>
  The operator of a conjunct is a string, \<^verbatim>\<open>undefined\<close>, or a member inherited from
  \<^verbatim>\<open>Object.prototype\<close> that the constructor read from its table. The code only
  concatenates an operator, compares it with string literals and uses it as a property
  name, all of which see such a member as the string it is written as; the model holds
  that string.
\<close>

record conjunct =
  c_key :: string
  c_operator :: "string option"
  c_values :: "string list option"
  c_id :: "string option"
  c_string :: "string option"

record selector =
  conjuncts :: "(string \<times> conjunct) list"
  emptySelectsAll :: bool

type_synonym labelmap = "string \<rightharpoonup> string"

record metadata =
  m_labels :: "labelmap option"

record resource =
  r_labels :: "labelmap option"
  r_metadata :: "metadata option"

text \<open>
  An entry of \<^verbatim>\<open>matchExpressions\<close>. The constructor uses its operator only as the
  property name at which it reads the table, so the model holds that name: a string is
  itself, and an object is read as \<^verbatim>\<open>[object Object]\<close>.
\<close>

record expression =
  e_key :: string
  e_operator :: "string option"
  e_values :: "string list option"

text \<open>
  The selector description given to the constructor: the two markers of the expression
  shape when they are present, and the own properties that the equality-map branch walks
  (a value is a string, or \<open>None\<close> for \<^verbatim>\<open>null\<close>). A description with neither marker may
  still have a property of a marker's name whose value is \<^verbatim>\<open>null\<close> or the empty string;
  it is then one of the entries. The lists are in the order in which \<^verbatim>\<open>angular.forEach\<close>
  visits the properties. Where a walked object has a property \<^verbatim>\<open>forEach\<close> with a
  non-empty value, \<^verbatim>\<open>angular.forEach\<close> calls it and the constructor throws before it
  adds a conjunct; the model covers the descriptions without such a property.
\<close>

record selector_json =
  matchLabels :: "(string \<times> string) list option"
  matchExpressions :: "expression list option"
  entries :: "(string \<times> string option) list"

subsection \<open>Lookup tables\<close>

definition OPERATOR_MAP :: "string \<rightharpoonup> string" where
  "OPERATOR_MAP = [''In'' \<mapsto> ''in'', ''NotIn'' \<mapsto> ''not in'', ''Exists'' \<mapsto> ''exists'',
     ''DoesNotExist'' \<mapsto> ''does not exist'']"

definition REVERSE_OPERATOR_MAP :: "string \<rightharpoonup> string" where
  "REVERSE_OPERATOR_MAP = [''in'' \<mapsto> ''In'', ''not in'' \<mapsto> ''NotIn'', ''exists'' \<mapsto> ''Exists'',
     ''does not exist'' \<mapsto> ''DoesNotExist'']"

text \<open>String concatenation and property names write \<^verbatim>\<open>undefined\<close> as the word itself.\<close>

definition to_string :: "string option \<Rightarrow> string" where
  "to_string v = (case v of None \<Rightarrow> ''undefined'' | Some s \<Rightarrow> s)"

text \<open>
  The members that a plain object inherits from \<^verbatim>\<open>Object.prototype\<close>: native functions,
  given by their names, and under \<^verbatim>\<open>__proto__\<close> the prototype object itself.
\<close>

datatype member = NativeFunction string | PrototypeObject

definition Object_prototype :: "string \<rightharpoonup> member" where
  "Object_prototype =
     [''constructor'' \<mapsto> NativeFunction ''Object'',
      ''hasOwnProperty'' \<mapsto> NativeFunction ''hasOwnProperty'',
      ''isPrototypeOf'' \<mapsto> NativeFunction ''isPrototypeOf'',
      ''propertyIsEnumerable'' \<mapsto> NativeFunction ''propertyIsEnumerable'',
      ''toLocaleString'' \<mapsto> NativeFunction ''toLocaleString'',
      ''toString'' \<mapsto> NativeFunction ''toString'',
      ''valueOf'' \<mapsto> NativeFunction ''valueOf'',
      ''__defineGetter__'' \<mapsto> NativeFunction ''__defineGetter__'',
      ''__defineSetter__'' \<mapsto> NativeFunction ''__defineSetter__'',
      ''__lookupGetter__'' \<mapsto> NativeFunction ''__lookupGetter__'',
      ''__lookupSetter__'' \<mapsto> NativeFunction ''__lookupSetter__'',
      ''__proto__'' \<mapsto> PrototypeObject]"

text \<open>The string a member is written as when it is concatenated or used as a property name.\<close>

definition member_string :: "member \<Rightarrow> string" where
  "member_string m =
     (case m of
        NativeFunction n \<Rightarrow> ''function '' @ n @ ''() { [native code] }''
      | PrototypeObject \<Rightarrow> ''[object Object]'')"

text \<open>
  A read \<^verbatim>\<open>table[k]\<close> of one of the two tables: an own property first, then an inherited
  member, else \<^verbatim>\<open>undefined\<close>. The key may itself be \<^verbatim>\<open>undefined\<close>.
\<close>

datatype property = Missing | OwnString string | Inherited member

definition get_property :: "(string \<rightharpoonup> string) \<Rightarrow> string option \<Rightarrow> property" where
  "get_property table k =
     (case table (to_string k) of
        Some v \<Rightarrow> OwnString v
      | None \<Rightarrow>
          (case Object_prototype (to_string k) of
             Some m \<Rightarrow> Inherited m
           | None \<Rightarrow> Missing))"

text \<open>The value read at line 35, as the \<^verbatim>\<open>operator\<close> of the conjunct holds it.\<close>

definition operator_value :: "property \<Rightarrow> string option" where
  "operator_value v =
     (case v of
        Missing \<Rightarrow> None
      | OwnString n \<Rightarrow> Some n
      | Inherited m \<Rightarrow> Some (member_string m))"

text \<open>
  The value read at line 215, as the exported document carries it to the constructor:
  \<^verbatim>\<open>JSON.stringify\<close> leaves out a property whose value is \<^verbatim>\<open>undefined\<close> or a function, and
  writes the prototype object as an empty object, which the constructor reads as the
  property name \<^verbatim>\<open>[object Object]\<close>.
\<close>

definition json_operator :: "property \<Rightarrow> string option" where
  "json_operator v =
     (case v of
        Missing \<Rightarrow> None
      | OwnString n \<Rightarrow> Some n
      | Inherited m \<Rightarrow>
          (case m of
             NativeFunction n \<Rightarrow> None
           | PrototypeObject \<Rightarrow> Some ''[object Object]''))"

subsection \<open>Identity and display string of a conjunct\<close>

text \<open>\<^verbatim>\<open>Array.prototype.join\<close> on an array of strings.\<close>

fun join :: "string \<Rightarrow> string list \<Rightarrow> string" where
  "join sep [] = []"
| "join sep [x] = x"
| "join sep (x # y # ys) = x @ sep @ join sep (y # ys)"

definition getIdForConjunct :: "conjunct \<Rightarrow> string" where
  "getIdForConjunct c =
     (let ident = c_key c @ ''-'' @ to_string (c_operator c)
      in case c_values c of
           None \<Rightarrow> ident
         | Some vs \<Rightarrow> ident @ ''-'' @ join '','' vs)"

definition dquote :: char where
  "dquote = CHR 0x22"

text \<open>The loop of \<^verbatim>\<open>_getStringForConjunct\<close> over the value list.\<close>

fun values_string :: "string list \<Rightarrow> string" where
  "values_string [] = []"
| "values_string [v] = (if v = [] then [dquote, dquote] else v)"
| "values_string (v # w # ws) =
     (if v = [] then [dquote, dquote] else v) @ '', '' @ values_string (w # ws)"

definition getStringForConjunct :: "conjunct \<Rightarrow> error + string" where
  "getStringForConjunct c =
     (if c_operator c = Some ''exists'' then Inr (c_key c @ '' exists'')
      else if c_operator c = Some ''does not exist'' then Inr (c_key c @ '' does not exist'')
      else
        (let conjunctString =
               (if c_operator c = Some ''not in'' then c_key c @ '' not'' else c_key c) @ '' in (''
         in case c_values c of
              None \<Rightarrow> Inl TypeError
            | Some vs \<Rightarrow> Inr (conjunctString @ values_string vs @ '')'')))"

subsection \<open>Mutation\<close>

text \<open>
  \<^verbatim>\<open>addConjunct\<close> stores the object before it computes the display string, so a call
  that throws there has still changed the collection; the new state is returned with
  either result.
\<close>

definition addConjunct ::
  "selector \<Rightarrow> string \<Rightarrow> string option \<Rightarrow> string list option \<Rightarrow> selector \<times> (error + conjunct)" where
  "addConjunct s k opr vs =
     (let conjunct = \<lparr>c_key = k, c_operator = opr, c_values = vs, c_id = None, c_string = None\<rparr>;
          ident = getIdForConjunct conjunct;
          conjunct = conjunct\<lparr>c_id := Some ident\<rparr>
      in case getStringForConjunct conjunct of
           Inl e \<Rightarrow> (s\<lparr>conjuncts := AList.update ident conjunct (conjuncts s)\<rparr>, Inl e)
         | Inr str \<Rightarrow>
             (let conjunct = conjunct\<lparr>c_string := Some str\<rparr>
              in (s\<lparr>conjuncts := AList.update ident conjunct (conjuncts s)\<rparr>, Inr conjunct)))"

text \<open>
  \<^verbatim>\<open>removeConjunct\<close> takes an id or a conjunct object. An object whose \<^verbatim>\<open>id\<close> is missing
  or empty is itself used as the property name, which JavaScript writes
  \<^verbatim>\<open>[object Object]\<close>.
\<close>

datatype remove_arg = ConjunctId string | ConjunctObject conjunct

definition removeConjunct :: "selector \<Rightarrow> remove_arg \<Rightarrow> selector" where
  "removeConjunct s a =
     (case a of
        ConjunctId i \<Rightarrow> s\<lparr>conjuncts := AList.delete i (conjuncts s)\<rparr>
      | ConjunctObject c \<Rightarrow>
          (case c_id c of
             None \<Rightarrow> s\<lparr>conjuncts := AList.delete ''[object Object]'' (conjuncts s)\<rparr>
           | Some i \<Rightarrow>
               if i \<noteq> [] then s\<lparr>conjuncts := AList.delete i (conjuncts s)\<rparr>
               else s\<lparr>conjuncts := AList.delete ''[object Object]'' (conjuncts s)\<rparr>))"

definition clearConjuncts :: "selector \<Rightarrow> selector" where
  "clearConjuncts s = s\<lparr>conjuncts := []\<rparr>"

definition isEmpty :: "selector \<Rightarrow> bool" where
  "isEmpty s = (conjuncts s = [])"

subsection \<open>Construction\<close>

text \<open>One \<^verbatim>\<open>angular.forEach\<close> pass of \<^verbatim>\<open>addConjunct\<close> calls; an exception ends it.\<close>

fun add_each ::
  "selector \<Rightarrow> (string \<times> string option \<times> string list option) list \<Rightarrow> error + selector" where
  "add_each s [] = Inr s"
| "add_each s ((k, opr, vs) # rest) =
     (case addConjunct s k opr vs of
        (s', Inl e) \<Rightarrow> Inl e
      | (s', Inr c) \<Rightarrow> add_each s' rest)"

definition LabelSelector :: "selector_json option \<Rightarrow> bool option \<Rightarrow> error + selector" where
  "LabelSelector sel esa =
     (let this = \<lparr>conjuncts = [], emptySelectsAll = (case esa of None \<Rightarrow> False | Some b \<Rightarrow> b)\<rparr>
      in case sel of
           None \<Rightarrow> Inr this
         | Some j \<Rightarrow>
             if matchLabels j \<noteq> None \<or> matchExpressions j \<noteq> None then
               (case add_each this
                       (map (\<lambda>(key, details). (key, Some ''in'', Some [details]))
                          (case matchLabels j of None \<Rightarrow> [] | Some ml \<Rightarrow> ml)) of
                  Inl e \<Rightarrow> Inl e
                | Inr this' \<Rightarrow>
                    add_each this'
                      (map (\<lambda>e. (e_key e, operator_value (get_property OPERATOR_MAP (e_operator e)), e_values e))
                         (case matchExpressions j of None \<Rightarrow> [] | Some me \<Rightarrow> me)))
             else
               add_each this
                 (map (\<lambda>(key, details).
                         (case details of
                            Some d \<Rightarrow> (key, Some ''in'', Some [d])
                          | None \<Rightarrow> (key, Some ''exists'', Some [])))
                    (entries j)))"

subsection \<open>Matching\<close>

text \<open>The two search loops over a value list, for a label value \<open>l\<close>.\<close>

fun in_loop :: "string \<Rightarrow> string list \<Rightarrow> bool" where
  "in_loop l [] = False"
| "in_loop l (v # vs) = (if l = v then True else in_loop l vs)"

fun not_in_loop :: "string \<Rightarrow> string list \<Rightarrow> bool" where
  "not_in_loop l [] = True"
| "not_in_loop l (v # vs) = (if l \<noteq> v then not_in_loop l vs else False)"

text \<open>
  The body of the \<^verbatim>\<open>switch\<close> for one conjunct: \<open>Inr False\<close> where the code returns
  false, \<open>Inr True\<close> where it goes on to the next conjunct.
\<close>

definition check_conjunct :: "labelmap \<Rightarrow> conjunct \<Rightarrow> error + bool" where
  "check_conjunct labels c =
     (if c_operator c = Some ''exists'' then
        (case labels (c_key c) of None \<Rightarrow> Inr False | Some l \<Rightarrow> Inr True)
      else if c_operator c = Some ''does not exist'' then
        (case labels (c_key c) of None \<Rightarrow> Inr True | Some l \<Rightarrow> Inr False)
      else if c_operator c = Some ''in'' then
        (case labels (c_key c) of
           None \<Rightarrow> Inr False
         | Some l \<Rightarrow>
             (case c_values c of
                None \<Rightarrow> Inl TypeError
              | Some vs \<Rightarrow> Inr (in_loop l vs)))
      else if c_operator c = Some ''not in'' then
        (case labels (c_key c) of
           None \<Rightarrow> Inr True
         | Some l \<Rightarrow>
             if l = [] then Inr True
             else
               (case c_values c of
                  None \<Rightarrow> Inl TypeError
                | Some vs \<Rightarrow> Inr (not_in_loop l vs)))
      else Inr True)"

fun matches_loop :: "labelmap \<Rightarrow> (string \<times> conjunct) list \<Rightarrow> error + bool" where
  "matches_loop labels [] = Inr True"
| "matches_loop labels ((ident, c) # rest) =
     (case check_conjunct labels c of
        Inl e \<Rightarrow> Inl e
      | Inr ok \<Rightarrow> if ok then matches_loop labels rest else Inr False)"

definition resource_labels :: "resource \<Rightarrow> labelmap" where
  "resource_labels r =
     (let labels = (case r_labels r of None \<Rightarrow> Map.empty | Some l \<Rightarrow> l)
      in case r_metadata r of
           None \<Rightarrow> labels
         | Some m \<Rightarrow> (case m_labels m of None \<Rightarrow> Map.empty | Some l \<Rightarrow> l))"

definition matches :: "selector \<Rightarrow> resource option \<Rightarrow> error + bool" where
  "matches s res =
     (case res of
        None \<Rightarrow> Inr False
      | Some r \<Rightarrow>
          if isEmpty s then Inr (emptySelectsAll s)
          else matches_loop (resource_labels r) (conjuncts s))"

subsection \<open>Lookup helpers\<close>

definition hasConjunct :: "selector \<Rightarrow> conjunct \<Rightarrow> bool" where
  "hasConjunct s c = (map_of (conjuncts s) (getIdForConjunct c) \<noteq> None)"

definition findConjunctsMatching :: "selector \<Rightarrow> string \<Rightarrow> string \<Rightarrow> (string \<times> conjunct) list" where
  "findConjunctsMatching s opr k =
     filter (\<lambda>(ident, c). c_operator c = Some opr \<and> c_key c = k) (conjuncts s)"

subsection \<open>Subsumption\<close>

text \<open>
  The library function \<^verbatim>\<open>_.intersection\<close> of lodash: the values of the first array that
  occur in the second, each once, in the order of their first occurrence. An argument
  that is not an array counts as the empty array.
\<close>

fun intersection_loop :: "string list \<Rightarrow> string list \<Rightarrow> string list \<Rightarrow> string list" where
  "intersection_loop [] others result = result"
| "intersection_loop (x # xs) others result =
     (if x \<notin> set result \<and> x \<in> set others then intersection_loop xs others (result @ [x])
      else intersection_loop xs others result)"

definition intersection :: "string list option \<Rightarrow> string list option \<Rightarrow> string list" where
  "intersection a b =
     (case a of
        None \<Rightarrow> []
      | Some xs \<Rightarrow> intersection_loop xs (case b of None \<Rightarrow> [] | Some ys \<Rightarrow> ys) [])"

text \<open>
  The library function \<^verbatim>\<open>_.every\<close>: it stops at the first element the predicate
  rejects, and an exception raised by the predicate leaves it at once.
\<close>

fun every :: "('a \<Rightarrow> error + bool) \<Rightarrow> 'a list \<Rightarrow> error + bool" where
  "every p [] = Inr True"
| "every p (x # xs) =
     (case p x of
        Inl e \<Rightarrow> Inl e
      | Inr ok \<Rightarrow> if ok then every p xs else Inr False)"

text \<open>The function that \<^verbatim>\<open>covers\<close> applies to each conjunct of the covering selector.\<close>

definition covers_conjunct :: "selector \<Rightarrow> conjunct \<Rightarrow> error + bool" where
  "covers_conjunct selector c =
     (if hasConjunct selector c then Inr True
      else if c_operator c = Some ''exists'' then
        Inr (findConjunctsMatching selector ''in'' (c_key c) \<noteq> [])
      else if c_operator c = Some ''does not exist'' then Inr False
      else if c_operator c = Some ''in'' then
        (let inConjuncts = findConjunctsMatching selector ''in'' (c_key c)
         in if inConjuncts = [] then Inr False
            else every
                   (\<lambda>(ident, inConjunct).
                      case c_values inConjunct of
                        None \<Rightarrow> Inl TypeError
                      | Some w \<Rightarrow>
                          Inr (length w = length (intersection (c_values inConjunct) (c_values c))))
                   inConjuncts)
      else if c_operator c = Some ''not in'' then
        (let notInConjuncts = findConjunctsMatching selector ''not in'' (c_key c)
         in if notInConjuncts = [] then Inr False
            else every
                   (\<lambda>(ident, notInConjunct).
                      case c_values c of
                        None \<Rightarrow> Inl TypeError
                      | Some v \<Rightarrow>
                          Inr (length v = length (intersection (c_values notInConjunct) (c_values c))))
                   notInConjuncts)
      else Inr True)"

definition covers :: "selector \<Rightarrow> selector \<Rightarrow> error + bool" where
  "covers this selector =
     (if isEmpty this then Inr False
      else every (\<lambda>(ident, c). covers_conjunct selector c) (conjuncts this))"

subsection \<open>Export\<close>

text \<open>
  \<^verbatim>\<open>exportJSON\<close> returns the text of a JSON document. The model returns the document
  that \<^verbatim>\<open>JSON.parse\<close> reads back from that text: \<^verbatim>\<open>JSON.stringify\<close> leaves out a
  property whose value is \<^verbatim>\<open>undefined\<close>, and the parsed object then reads it as
  \<^verbatim>\<open>undefined\<close> again; strings and arrays of strings come back unchanged.
\<close>

definition exportJSON :: "selector \<Rightarrow> selector_json" where
  "exportJSON s =
     \<lparr>matchLabels = None,
      matchExpressions =
        Some (map (\<lambda>(ident, c).
                     \<lparr>e_key = c_key c,
                      e_operator = json_operator (get_property REVERSE_OPERATOR_MAP (c_operator c)),
                      e_values = c_values c\<rparr>)
                (conjuncts s)),
      entries = []\<rparr>"

text \<open>Construction from the exported document.\<close>

definition reparse :: "selector \<Rightarrow> bool option \<Rightarrow> error + selector" where
  "reparse s esa = LabelSelector (Some (exportJSON s)) esa"

subsection \<open>Sequences of mutations\<close>

datatype operation =
  Add string "string option" "string list option"
| Remove remove_arg
| Clear

fun apply_operation :: "selector \<Rightarrow> operation \<Rightarrow> selector" where
  "apply_operation s (Add k opr vs) = fst (addConjunct s k opr vs)"
| "apply_operation s (Remove a) = removeConjunct s a"
| "apply_operation s Clear = clearConjuncts s"

definition run :: "selector \<Rightarrow> operation list \<Rightarrow> selector" where
  "run s ops = foldl apply_operation s ops"

subsection \<open>Properties of a collection\<close>

text \<open>No two entries of the collection have the same id.\<close>

definition ids_unique :: "selector \<Rightarrow> bool" where
  "ids_unique s = distinct (map fst (conjuncts s))"

text \<open>Every entry is stored under the id derived from its own key, operator and values.\<close>

definition stored_by_id :: "selector \<Rightarrow> bool" where
  "stored_by_id s =
     list_all (\<lambda>(ident, c). c_id c = Some ident \<and> getIdForConjunct c = ident) (conjuncts s)"

text \<open>Every entry carries its display string: the call that stored it returned.\<close>

definition has_string :: "conjunct \<Rightarrow> bool" where
  "has_string c =
     (case getStringForConjunct c of Inl e \<Rightarrow> False | Inr str \<Rightarrow> c_string c = Some str)"

text \<open>The operators that \<^verbatim>\<open>exportJSON\<close> and the constructor map back to themselves.\<close>

definition known_operator :: "string option \<Rightarrow> bool" where
  "known_operator opr =
     (opr = None \<or> opr = Some ''in'' \<or> opr = Some ''not in'' \<or> opr = Some ''exists''
      \<or> opr = Some ''does not exist'')"

definition exportable :: "selector \<Rightarrow> bool" where
  "exportable s =
     list_all (\<lambda>(ident, c). has_string c \<and> known_operator (c_operator c)) (conjuncts s)"

text \<open>
  No entry of \<^verbatim>\<open>matchExpressions\<close> has an operator that names a member inherited from
  \<^verbatim>\<open>Object.prototype\<close>.
\<close>

definition plain_operators :: "selector_json option \<Rightarrow> bool" where
  "plain_operators sel =
     (case sel of
        None \<Rightarrow> True
      | Some j \<Rightarrow>
          (case matchExpressions j of
             None \<Rightarrow> True
           | Some me \<Rightarrow> list_all (\<lambda>e. Object_prototype (to_string (e_operator e)) = None) me))"

definition tuples_of :: "selector \<Rightarrow> (string \<times> string option \<times> string list option) list" where
  "tuples_of s = map (\<lambda>(ident, c). (c_key c, c_operator c, c_values c)) (conjuncts s)"

definition no_comma :: "string \<Rightarrow> bool" where
  "no_comma v = (CHR '','' \<notin> set v)"

subsection \<open>Conjuncts as \<^verbatim>\<open>addConjunct\<close> builds and stores them\<close>

text \<open>The object literal that \<^verbatim>\<open>addConjunct\<close> starts from, as \<^verbatim>\<open>hasConjunct\<close> may be given it.\<close>

definition new_conjunct :: "string \<Rightarrow> string option \<Rightarrow> string list option \<Rightarrow> conjunct" where
  "new_conjunct k opr vs =
     \<lparr>c_key = k, c_operator = opr, c_values = vs, c_id = None, c_string = None\<rparr>"

text \<open>The same object once \<^verbatim>\<open>addConjunct\<close> is through with it.\<close>

definition stored_conjunct :: "string \<Rightarrow> string option \<Rightarrow> string list option \<Rightarrow> conjunct" where
  "stored_conjunct k opr vs =
     (new_conjunct k opr vs)
       \<lparr>c_id := Some (getIdForConjunct (new_conjunct k opr vs)),
        c_string := (case getStringForConjunct (new_conjunct k opr vs) of
                       Inl e \<Rightarrow> None | Inr str \<Rightarrow> Some str)\<rparr>"

text \<open>A selector holding one conjunct, added to an empty selector.\<close>

definition one_conjunct :: "string \<Rightarrow> string \<Rightarrow> string list \<Rightarrow> selector" where
  "one_conjunct k opr vs =
     fst (addConjunct \<lparr>conjuncts = [], emptySelectsAll = False\<rparr> k (Some opr) (Some vs))"

text \<open>The value list of a conjunct as \<^verbatim>\<open>_.intersection\<close> sees it.\<close>

definition value_list :: "conjunct \<Rightarrow> string list" where
  "value_list c = (case c_values c of None \<Rightarrow> [] | Some vs \<Rightarrow> vs)"

text \<open>What the constructor passes to \<^verbatim>\<open>addConjunct\<close> for an exported entry.\<close>

definition exported :: "string \<times> conjunct \<Rightarrow> string \<times> string option \<times> string list option" where
  "exported e =
     (c_key (snd e), operator_value
        (get_property OPERATOR_MAP
           (json_operator (get_property REVERSE_OPERATOR_MAP (c_operator (snd e))))),
      c_values (snd e))"

section \<open>Basic facts\<close>

subsection \<open>Loops as membership tests\<close>

lemma in_loop_iff: "in_loop l vs \<longleftrightarrow> l \<in> set vs"
  by (induction vs) auto

lemma not_in_loop_iff: "not_in_loop l vs \<longleftrightarrow> l \<notin> set vs"
  by (induction vs) auto

lemma every_True_iff: "every p xs = Inr True \<longleftrightarrow> (\<forall>x \<in> set xs. p x = Inr True)"
  by (induction xs) (auto split: sum.splits if_splits)

subsection \<open>Only key, operator and values matter\<close>

lemma getIdForConjunct_fields [simp]:
  "getIdForConjunct (c\<lparr>c_id := i\<rparr>) = getIdForConjunct c"
  "getIdForConjunct (c\<lparr>c_string := d\<rparr>) = getIdForConjunct c"
  by (simp_all add: getIdForConjunct_def split: option.splits)

lemma getStringForConjunct_fields [simp]:
  "getStringForConjunct (c\<lparr>c_id := i\<rparr>) = getStringForConjunct c"
  "getStringForConjunct (c\<lparr>c_string := d\<rparr>) = getStringForConjunct c"
  by (simp_all add: getStringForConjunct_def split: option.splits)

lemma check_conjunct_fields [simp]:
  "check_conjunct L (c\<lparr>c_id := i\<rparr>) = check_conjunct L c"
  "check_conjunct L (c\<lparr>c_string := d\<rparr>) = check_conjunct L c"
  by (simp_all add: check_conjunct_def split: option.splits)

lemma check_stored_conjunct:
  "check_conjunct L (stored_conjunct k opr vs) = check_conjunct L (new_conjunct k opr vs)"
  by (simp add: stored_conjunct_def)

subsection \<open>The two components of \<^verbatim>\<open>addConjunct\<close>\<close>

lemma addConjunct_state:
  "fst (addConjunct s k opr vs) =
     s\<lparr>conjuncts := AList.update (getIdForConjunct (new_conjunct k opr vs))
                        (stored_conjunct k opr vs) (conjuncts s)\<rparr>"
  by (simp add: addConjunct_def new_conjunct_def stored_conjunct_def Let_def split: sum.splits)

lemma addConjunct_result:
  "snd (addConjunct s k opr vs) =
     (case getStringForConjunct (new_conjunct k opr vs) of
        Inl e \<Rightarrow> Inl e | Inr str \<Rightarrow> Inr (stored_conjunct k opr vs))"
  by (simp add: addConjunct_def new_conjunct_def stored_conjunct_def Let_def split: sum.splits)

text \<open>With a value list, the call returns.\<close>

lemma addConjunct_returns:
  "snd (addConjunct s k opr (Some vs)) = Inr (stored_conjunct k opr (Some vs))"
  by (simp add: addConjunct_result) (simp add: getStringForConjunct_def new_conjunct_def)

text \<open>A property kept by every \<^verbatim>\<open>addConjunct\<close> call holds after a pass of them.\<close>

lemma add_each_fst:
  "add_each s xs = Inr s' \<Longrightarrow> P s \<Longrightarrow>
   (\<And>t k opr vs. P t \<Longrightarrow> P (fst (addConjunct t k opr vs))) \<Longrightarrow> P s'"
proof (induction s xs rule: add_each.induct)
  case (1 s)
  then show ?case by simp
next
  case (2 s k opr vs rest)
  obtain t res where a: "addConjunct s k opr vs = (t, res)"
    by (cases "addConjunct s k opr vs")
  show ?case
  proof (cases res)
    case (Inl e)
    with a "2.prems" show ?thesis by simp
  next
    case (Inr c)
    have "P (fst (addConjunct s k opr vs))" using "2.prems" by blast
    with a have "P t" by simp
    moreover from a Inr "2.prems" have "add_each t rest = Inr s'" by simp
    ultimately show ?thesis
      using "2.IH"[OF a[symmetric] Inr] "2.prems"(3) by blast
  qed
qed

subsection \<open>The flag is fixed at construction\<close>

lemma emptySelectsAll_addConjunct:
  "emptySelectsAll (fst (addConjunct s k opr vs)) = emptySelectsAll s"
  by (simp add: addConjunct_state)

lemma emptySelectsAll_removeConjunct: "emptySelectsAll (removeConjunct s a) = emptySelectsAll s"
  by (simp add: removeConjunct_def split: remove_arg.splits option.splits)

lemma emptySelectsAll_apply: "emptySelectsAll (apply_operation s x) = emptySelectsAll s"
  by (cases x)
    (simp_all add: emptySelectsAll_addConjunct emptySelectsAll_removeConjunct clearConjuncts_def)

lemma emptySelectsAll_run: "emptySelectsAll (run s ops) = emptySelectsAll s"
  unfolding run_def by (induction ops arbitrary: s) (simp_all add: emptySelectsAll_apply)

lemma emptySelectsAll_add_each:
  assumes "add_each s xs = Inr s'"
  shows "emptySelectsAll s' = emptySelectsAll s"
proof -
  have "emptySelectsAll s' = b" if "emptySelectsAll s = b" for b
    using assms that by (rule add_each_fst) (simp add: emptySelectsAll_addConjunct)
  then show ?thesis by simp
qed

lemma emptySelectsAll_LabelSelector:
  assumes "LabelSelector sel esa = Inr s"
  shows "emptySelectsAll s = (esa = Some True)"
proof -
  define start where
    "start = \<lparr>conjuncts = [], emptySelectsAll = (case esa of None \<Rightarrow> False | Some b \<Rightarrow> b)\<rparr>"
  have flag: "emptySelectsAll start = (esa = Some True)"
    by (simp add: start_def split: option.splits)
  show ?thesis
  proof (cases sel)
    case None
    with assms have "s = start" by (simp add: LabelSelector_def start_def)
    with flag show ?thesis by simp
  next
    case (Some j)
    with assms have "emptySelectsAll s = emptySelectsAll start"
      unfolding LabelSelector_def Let_def start_def[symmetric]
      by (auto split: if_splits sum.splits dest!: emptySelectsAll_add_each)
    with flag show ?thesis by simp
  qed
qed

text \<open>The definitions that a concrete call unfolds to.\<close>

lemmas eval_defs =
  LabelSelector_def one_conjunct_def addConjunct_def removeConjunct_def clearConjuncts_def
  matches_def isEmpty_def resource_labels_def check_conjunct_def covers_def covers_conjunct_def
  hasConjunct_def findConjunctsMatching_def intersection_def exportJSON_def reparse_def
  stored_conjunct_def new_conjunct_def getIdForConjunct_def getStringForConjunct_def
  to_string_def get_property_def operator_value_def json_operator_def member_string_def
  Object_prototype_def OPERATOR_MAP_def REVERSE_OPERATOR_MAP_def tuples_of_def
  value_list_def run_def Let_def

subsection \<open>\<^verbatim>\<open>matches\<close> is the conjunction of the checks\<close>

lemma matches_loop_True_iff:
  "matches_loop L cs = Inr True \<longleftrightarrow> (\<forall>e \<in> set cs. check_conjunct L (snd e) = Inr True)"
  by (induction cs) (auto split: sum.splits if_splits)

lemma matches_True_iff:
  "matches s (Some r) = Inr True \<longleftrightarrow>
     (if conjuncts s = [] then emptySelectsAll s
      else \<forall>e \<in> set (conjuncts s). check_conjunct (resource_labels r) (snd e) = Inr True)"
  by (simp add: matches_def isEmpty_def matches_loop_True_iff)

lemma matches_loop_update_False:
  "matches_loop L cs = Inr False \<Longrightarrow> check_conjunct L c = Inr False \<Longrightarrow>
   matches_loop L (AList.update k c cs) = Inr False"
  by (induction cs) (auto split: sum.splits if_splits)

lemma conjuncts_removeConjunct_subset:
  "set (conjuncts (removeConjunct s a)) \<subseteq> set (conjuncts s)"
  by (auto simp: removeConjunct_def AList.delete_eq split: remove_arg.splits option.splits)

section \<open>Matching\<close>

text \<open>
  C5. For every selector, \<^verbatim>\<open>matches\<close> of a missing resource returns false, whatever the
  constraint set and the flag are: the test for the resource comes before the test for
  an empty constraint set.
\<close>

theorem matches_null_resource: "matches s None = Inr False"
  by (simp add: matches_def)

text \<open>
  C6. For a resource that is present and a selector with no constraints, \<^verbatim>\<open>matches\<close>
  returns the flag \<^verbatim>\<open>emptySelectsAll\<close> and evaluates no constraint; the flag is the one
  given to the constructor, and no sequence of mutations changes it.
\<close>

theorem matches_empty_selector:
  "(conjuncts s = [] \<longrightarrow> matches s (Some r) = Inr (emptySelectsAll s))
   \<and> (LabelSelector sel esa = Inr s0 \<longrightarrow> emptySelectsAll (run s0 ops) = (esa = Some True))"
  by (simp add: matches_def isEmpty_def emptySelectsAll_run emptySelectsAll_LabelSelector)

theorem matches_empty_selector_witness:
  "conjuncts \<lparr>conjuncts = [], emptySelectsAll = True\<rparr> = []
   \<and> matches \<lparr>conjuncts = [], emptySelectsAll = True\<rparr>
        (Some \<lparr>r_labels = Some [''app'' \<mapsto> ''web''], r_metadata = None\<rparr>) = Inr True
   \<and> LabelSelector None (Some True) = Inr \<lparr>conjuncts = [], emptySelectsAll = True\<rparr>
   \<and> emptySelectsAll (run \<lparr>conjuncts = [], emptySelectsAll = True\<rparr> [Clear])"
  using matches_empty_selector
    [of "\<lparr>conjuncts = [], emptySelectsAll = True\<rparr>"
        "\<lparr>r_labels = Some [''app'' \<mapsto> ''web''], r_metadata = None\<rparr>"
        None "Some True" "\<lparr>conjuncts = [], emptySelectsAll = True\<rparr>" "[Clear]"]
  by (simp add: LabelSelector_def)

text \<open>
  C10. For a resource with a \<^verbatim>\<open>metadata\<close> field, the labels that \<^verbatim>\<open>matches\<close> evaluates
  are \<^verbatim>\<open>metadata.labels\<close>, or the empty mapping when \<^verbatim>\<open>metadata\<close> has no labels; the
  top-level \<^verbatim>\<open>labels\<close> field has no influence on the result.
\<close>

theorem matches_metadata_labels:
  "r_metadata r = Some m \<Longrightarrow>
     resource_labels r = (case m_labels m of None \<Rightarrow> Map.empty | Some l \<Rightarrow> l)
     \<and> matches s (Some r) = matches s (Some \<lparr>r_labels = other, r_metadata = Some m\<rparr>)
     \<and> (conjuncts s \<noteq> [] \<longrightarrow>
          matches s (Some r)
            = matches_loop (case m_labels m of None \<Rightarrow> Map.empty | Some l \<Rightarrow> l) (conjuncts s))"
  by (simp add: matches_def resource_labels_def isEmpty_def)

theorem matches_metadata_labels_witness:
  "r_metadata \<lparr>r_labels = Some [''app'' \<mapsto> ''web''], r_metadata = Some \<lparr>m_labels = None\<rparr>\<rparr>
     = Some \<lparr>m_labels = None\<rparr>
   \<and> conjuncts (one_conjunct ''app'' ''in'' [''web'']) \<noteq> []
   \<and> matches (one_conjunct ''app'' ''in'' [''web''])
        (Some \<lparr>r_labels = Some [''app'' \<mapsto> ''web''], r_metadata = Some \<lparr>m_labels = None\<rparr>\<rparr>)
       = matches_loop Map.empty (conjuncts (one_conjunct ''app'' ''in'' [''web'']))
   \<and> matches (one_conjunct ''app'' ''in'' [''web''])
        (Some \<lparr>r_labels = Some [''app'' \<mapsto> ''web''], r_metadata = Some \<lparr>m_labels = None\<rparr>\<rparr>)
       = Inr False
   \<and> matches (one_conjunct ''app'' ''in'' [''web''])
        (Some \<lparr>r_labels = Some [''app'' \<mapsto> ''web''], r_metadata = None\<rparr>)
       = Inr True"
  using matches_metadata_labels
    [of "\<lparr>r_labels = Some [''app'' \<mapsto> ''web''], r_metadata = Some \<lparr>m_labels = None\<rparr>\<rparr>"
        "\<lparr>m_labels = None\<rparr>" "one_conjunct ''app'' ''in'' [''web'']" None]
  by (simp add: eval_defs)

text \<open>
  C3. A \<^verbatim>\<open>NotIn\<close> constraint on key K does not fail on a label mapping that maps K to the
  empty string, and it fails on one that maps K to a non-empty value found in its value
  list; a failing constraint keeps \<^verbatim>\<open>matches\<close> from returning true. The selector built
  from \<^verbatim>\<open>matchExpressions [{key:"env",operator:"NotIn",values:["prod"]}]\<close> matches the
  labels \<^verbatim>\<open>{env:""}\<close> and does not match \<^verbatim>\<open>{env:"prod"}\<close>.
\<close>

theorem not_in_empty_label:
  "(c_operator c = Some ''not in'' \<and> labels (c_key c) = Some [] \<longrightarrow>
      check_conjunct labels c = Inr True)
   \<and> (c_operator c = Some ''not in'' \<and> c_values c = Some vs \<and> labels (c_key c) = Some l
        \<and> l \<noteq> [] \<and> l \<in> set vs \<longrightarrow>
      check_conjunct labels c = Inr False)
   \<and> ((ident, c) \<in> set (conjuncts s) \<and> check_conjunct (resource_labels r) c = Inr False \<longrightarrow>
      matches s (Some r) \<noteq> Inr True)
   \<and> LabelSelector
        (Some \<lparr>matchLabels = None,
               matchExpressions =
                 Some [\<lparr>e_key = ''env'', e_operator = Some ''NotIn'', e_values = Some [''prod'']\<rparr>],
               entries = []\<rparr>) None
       = Inr (one_conjunct ''env'' ''not in'' [''prod''])
   \<and> matches (one_conjunct ''env'' ''not in'' [''prod''])
        (Some \<lparr>r_labels = Some [''env'' \<mapsto> ''''], r_metadata = None\<rparr>) = Inr True
   \<and> matches (one_conjunct ''env'' ''not in'' [''prod''])
        (Some \<lparr>r_labels = Some [''env'' \<mapsto> ''prod''], r_metadata = None\<rparr>) = Inr False"
proof (intro conjI impI)
  assume "c_operator c = Some ''not in'' \<and> labels (c_key c) = Some []"
  then show "check_conjunct labels c = Inr True"
    by (simp add: check_conjunct_def)
next
  assume "c_operator c = Some ''not in'' \<and> c_values c = Some vs \<and> labels (c_key c) = Some l
    \<and> l \<noteq> [] \<and> l \<in> set vs"
  then show "check_conjunct labels c = Inr False"
    by (simp add: check_conjunct_def not_in_loop_iff)
next
  assume a: "(ident, c) \<in> set (conjuncts s) \<and> check_conjunct (resource_labels r) c = Inr False"
  show "matches s (Some r) \<noteq> Inr True"
  proof
    assume "matches s (Some r) = Inr True"
    with a have "\<forall>e \<in> set (conjuncts s). check_conjunct (resource_labels r) (snd e) = Inr True"
      by (auto simp: matches_True_iff split: if_splits)
    with a have "check_conjunct (resource_labels r) (snd (ident, c)) = Inr True"
      by blast
    with a show False by simp
  qed
next
  show "LabelSelector
        (Some \<lparr>matchLabels = None,
               matchExpressions =
                 Some [\<lparr>e_key = ''env'', e_operator = Some ''NotIn'', e_values = Some [''prod'']\<rparr>],
               entries = []\<rparr>) None
       = Inr (one_conjunct ''env'' ''not in'' [''prod''])"
    by (simp add: eval_defs)
next
  show "matches (one_conjunct ''env'' ''not in'' [''prod''])
        (Some \<lparr>r_labels = Some [''env'' \<mapsto> ''''], r_metadata = None\<rparr>) = Inr True"
    by (simp add: eval_defs)
next
  show "matches (one_conjunct ''env'' ''not in'' [''prod''])
        (Some \<lparr>r_labels = Some [''env'' \<mapsto> ''prod''], r_metadata = None\<rparr>) = Inr False"
    by (simp add: eval_defs)
qed

theorem not_in_empty_label_witness:
  "c_operator (new_conjunct ''env'' (Some ''not in'') (Some [''prod''])) = Some ''not in''
   \<and> c_values (new_conjunct ''env'' (Some ''not in'') (Some [''prod''])) = Some [''prod'']
   \<and> [''env'' \<mapsto> ''''] (c_key (new_conjunct ''env'' (Some ''not in'') (Some [''prod'']))) = Some []
   \<and> check_conjunct [''env'' \<mapsto> ''''] (new_conjunct ''env'' (Some ''not in'') (Some [''prod'']))
       = Inr True
   \<and> [''env'' \<mapsto> ''prod''] (c_key (new_conjunct ''env'' (Some ''not in'') (Some [''prod''])))
       = Some ''prod''
   \<and> ''prod'' \<in> set [''prod'']
   \<and> check_conjunct [''env'' \<mapsto> ''prod''] (new_conjunct ''env'' (Some ''not in'') (Some [''prod'']))
       = Inr False"
  using not_in_empty_label
    [of "new_conjunct ''env'' (Some ''not in'') (Some [''prod''])" "[''env'' \<mapsto> '''']"]
    not_in_empty_label
    [of "new_conjunct ''env'' (Some ''not in'') (Some [''prod''])" "[''env'' \<mapsto> ''prod'']"
        "[''prod'']" "''prod''"]
  by (simp add: eval_defs)

text \<open>
  C4 (amended). Removing a constraint from a selector that matches a resource leaves a
  selector that matches it, provided a constraint remains or \<^verbatim>\<open>emptySelectsAll\<close> is true;
  when the removal empties the set and \<^verbatim>\<open>emptySelectsAll\<close> is false, the match turns
  into a non-match. Adding a constraint that the resource's labels do not satisfy to a
  selector that does not match leaves a selector that does not match, for both values
  of \<^verbatim>\<open>emptySelectsAll\<close>.
\<close>

theorem matches_remove_add:
  "(matches s (Some r) = Inr True
      \<and> (conjuncts (removeConjunct s a) \<noteq> [] \<or> emptySelectsAll s) \<longrightarrow>
      matches (removeConjunct s a) (Some r) = Inr True)
   \<and> (conjuncts (removeConjunct s a) = [] \<and> \<not> emptySelectsAll s \<longrightarrow>
      matches (removeConjunct s a) (Some r) = Inr False)
   \<and> (matches s (Some r) = Inr False
      \<and> check_conjunct (resource_labels r) (new_conjunct k opr vs) = Inr False \<longrightarrow>
      matches (fst (addConjunct s k opr vs)) (Some r) = Inr False)"
proof (intro conjI impI)
  assume a: "matches s (Some r) = Inr True
    \<and> (conjuncts (removeConjunct s a) \<noteq> [] \<or> emptySelectsAll s)"
  show "matches (removeConjunct s a) (Some r) = Inr True"
  proof (cases "conjuncts (removeConjunct s a) = []")
    case True
    with a show ?thesis
      by (simp add: matches_True_iff emptySelectsAll_removeConjunct)
  next
    case False
    with conjuncts_removeConjunct_subset[of s a] have "conjuncts s \<noteq> []" by auto
    with a have "\<forall>e \<in> set (conjuncts s). check_conjunct (resource_labels r) (snd e) = Inr True"
      by (simp add: matches_True_iff)
    with conjuncts_removeConjunct_subset[of s a]
    have "\<forall>e \<in> set (conjuncts (removeConjunct s a)).
            check_conjunct (resource_labels r) (snd e) = Inr True"
      by blast
    with False show ?thesis
      by (simp add: matches_True_iff)
  qed
next
  assume "conjuncts (removeConjunct s a) = [] \<and> \<not> emptySelectsAll s"
  then show "matches (removeConjunct s a) (Some r) = Inr False"
    by (simp add: matches_def isEmpty_def emptySelectsAll_removeConjunct)
next
  assume a: "matches s (Some r) = Inr False
    \<and> check_conjunct (resource_labels r) (new_conjunct k opr vs) = Inr False"
  then have fails: "check_conjunct (resource_labels r) (stored_conjunct k opr vs) = Inr False"
    by (simp add: check_stored_conjunct)
  show "matches (fst (addConjunct s k opr vs)) (Some r) = Inr False"
  proof (cases "conjuncts s = []")
    case True
    with fails show ?thesis
      by (simp add: matches_def isEmpty_def addConjunct_state)
  next
    case False
    with a have "matches_loop (resource_labels r) (conjuncts s) = Inr False"
      by (simp add: matches_def isEmpty_def)
    then show ?thesis
      using fails by (simp add: matches_def isEmpty_def addConjunct_state matches_loop_update_False)
  qed
qed

theorem matches_remove_add_witness:
  "matches (fst (addConjunct (one_conjunct ''app'' ''in'' [''web'']) ''tier'' (Some ''exists'') (Some [])))
      (Some \<lparr>r_labels = Some [''app'' \<mapsto> ''web'', ''tier'' \<mapsto> ''frontend''], r_metadata = None\<rparr>)
     = Inr True
   \<and> conjuncts (removeConjunct
        (fst (addConjunct (one_conjunct ''app'' ''in'' [''web'']) ''tier'' (Some ''exists'') (Some [])))
        (ConjunctId ''tier-exists-'')) \<noteq> []
   \<and> matches (removeConjunct
        (fst (addConjunct (one_conjunct ''app'' ''in'' [''web'']) ''tier'' (Some ''exists'') (Some [])))
        (ConjunctId ''tier-exists-''))
      (Some \<lparr>r_labels = Some [''app'' \<mapsto> ''web'', ''tier'' \<mapsto> ''frontend''], r_metadata = None\<rparr>)
     = Inr True
   \<and> conjuncts (removeConjunct (one_conjunct ''app'' ''in'' [''web'']) (ConjunctId ''app-in-web'')) = []
   \<and> \<not> emptySelectsAll (one_conjunct ''app'' ''in'' [''web''])
   \<and> matches (removeConjunct (one_conjunct ''app'' ''in'' [''web'']) (ConjunctId ''app-in-web''))
        (Some \<lparr>r_labels = Some [''app'' \<mapsto> ''db''], r_metadata = None\<rparr>) = Inr False
   \<and> matches (one_conjunct ''app'' ''in'' [''web''])
        (Some \<lparr>r_labels = Some [''app'' \<mapsto> ''db''], r_metadata = None\<rparr>) = Inr False
   \<and> check_conjunct
        (resource_labels \<lparr>r_labels = Some [''app'' \<mapsto> ''db''], r_metadata = None\<rparr>)
        (new_conjunct ''tier'' (Some ''exists'') (Some [])) = Inr False
   \<and> matches (fst (addConjunct (one_conjunct ''app'' ''in'' [''web'']) ''tier'' (Some ''exists'') (Some [])))
        (Some \<lparr>r_labels = Some [''app'' \<mapsto> ''db''], r_metadata = None\<rparr>) = Inr False"
  using matches_remove_add
    [of "fst (addConjunct (one_conjunct ''app'' ''in'' [''web'']) ''tier'' (Some ''exists'') (Some []))"
        "\<lparr>r_labels = Some [''app'' \<mapsto> ''web'', ''tier'' \<mapsto> ''frontend''], r_metadata = None\<rparr>"
        "ConjunctId ''tier-exists-''"]
    matches_remove_add
    [of "one_conjunct ''app'' ''in'' [''web'']"
        "\<lparr>r_labels = Some [''app'' \<mapsto> ''db''], r_metadata = None\<rparr>"
        "ConjunctId ''app-in-web''" "''tier''" "Some ''exists''" "Some []"]
  by (simp add: eval_defs)

theorem matches_remove_last:
  "LabelSelector (Some \<lparr>matchLabels = None, matchExpressions = None, entries = [(''app'', Some ''web'')]\<rparr>)
      None = Inr (one_conjunct ''app'' ''in'' [''web''])
   \<and> conjuncts (one_conjunct ''app'' ''in'' [''web''])
       = [(''app-in-web'', stored_conjunct ''app'' (Some ''in'') (Some [''web'']))]
   \<and> check_conjunct
        (resource_labels \<lparr>r_labels = Some [''app'' \<mapsto> ''web''], r_metadata = None\<rparr>)
        (stored_conjunct ''app'' (Some ''in'') (Some [''web''])) = Inr True
   \<and> matches (one_conjunct ''app'' ''in'' [''web''])
        (Some \<lparr>r_labels = Some [''app'' \<mapsto> ''web''], r_metadata = None\<rparr>) = Inr True
   \<and> matches
        (removeConjunct (one_conjunct ''app'' ''in'' [''web''])
           (ConjunctObject (stored_conjunct ''app'' (Some ''in'') (Some [''web'']))))
        (Some \<lparr>r_labels = Some [''app'' \<mapsto> ''web''], r_metadata = None\<rparr>) = Inr False"
  by (simp add: eval_defs)

section \<open>Subsumption\<close>

subsection \<open>What \<^verbatim>\<open>_.intersection\<close> computes\<close>

lemma set_intersection_loop:
  "set (intersection_loop xs others result) = set result \<union> (set xs \<inter> set others)"
  by (induction xs others result rule: intersection_loop.induct) auto

lemma distinct_intersection_loop:
  "distinct result \<Longrightarrow> distinct (intersection_loop xs others result)"
  by (induction xs others result rule: intersection_loop.induct) auto

lemma length_intersection:
  "length (intersection (Some w) (Some v)) = card (set w \<inter> set v)"
proof -
  have "distinct (intersection_loop w v [])"
    by (rule distinct_intersection_loop) simp
  then have "length (intersection_loop w v []) = card (set (intersection_loop w v []))"
    by (simp add: distinct_card)
  then show ?thesis
    by (simp add: intersection_def set_intersection_loop)
qed

lemma card_inter_eq_length_iff:
  "length w = card (set w \<inter> set v) \<longleftrightarrow> distinct w \<and> set w \<subseteq> set v"
proof
  assume eq: "length w = card (set w \<inter> set v)"
  have le1: "card (set w \<inter> set v) \<le> card (set w)"
    by (rule card_mono) auto
  have le2: "card (set w) \<le> length w"
    by (rule card_length)
  from eq le1 le2 have c1: "card (set w) = length w"
    and c2: "card (set w \<inter> set v) = card (set w)"
    by simp_all
  from c1 have "distinct w" by (rule card_distinct)
  moreover have "set w \<inter> set v = set w"
    by (rule card_subset_eq) (use c2 in auto)
  ultimately show "distinct w \<and> set w \<subseteq> set v" by auto
next
  assume "distinct w \<and> set w \<subseteq> set v"
  then have "distinct w" and "set w \<inter> set v = set w" by auto
  then show "length w = card (set w \<inter> set v)"
    by (simp add: distinct_card)
qed

lemma length_intersection_first:
  "length w = length (intersection (Some w) (Some v)) \<longleftrightarrow> distinct w \<and> set w \<subseteq> set v"
  by (simp add: length_intersection card_inter_eq_length_iff)

lemma length_intersection_second:
  "length v = length (intersection (Some w) (Some v)) \<longleftrightarrow> distinct v \<and> set v \<subseteq> set w"
  by (simp add: length_intersection card_inter_eq_length_iff Int_commute)

lemma intersection_loop_all:
  "distinct xs \<Longrightarrow> set xs \<subseteq> set others \<Longrightarrow> set xs \<inter> set result = {} \<Longrightarrow>
   intersection_loop xs others result = result @ xs"
  by (induction xs others result rule: intersection_loop.induct) auto

text \<open>The intersection is the first list itself exactly when the lengths agree.\<close>

lemma intersection_eq_first:
  "intersection (Some w) (Some v) = w \<longleftrightarrow> distinct w \<and> set w \<subseteq> set v"
proof
  assume "intersection (Some w) (Some v) = w"
  then have "length w = length (intersection (Some w) (Some v))" by simp
  then show "distinct w \<and> set w \<subseteq> set v" by (simp only: length_intersection_first)
next
  assume "distinct w \<and> set w \<subseteq> set v"
  then show "intersection (Some w) (Some v) = w"
    by (simp add: intersection_def intersection_loop_all)
qed

subsection \<open>\<^verbatim>\<open>covers\<close> is the conjunction over the covering selector\<close>

lemma covers_True_iff:
  "covers a b = Inr True \<longleftrightarrow>
     conjuncts a \<noteq> [] \<and> (\<forall>e \<in> set (conjuncts a). covers_conjunct b (snd e) = Inr True)"
  by (auto simp: covers_def isEmpty_def every_True_iff split: prod.splits)

lemma covers_conjunct_in:
  assumes "c_operator c = Some ''in''" and "c_values c = Some v" and "\<not> hasConjunct b c"
  shows "covers_conjunct b c = Inr True \<longleftrightarrow>
           findConjunctsMatching b ''in'' (c_key c) \<noteq> []
           \<and> (\<forall>e \<in> set (findConjunctsMatching b ''in'' (c_key c)).
                 \<exists>w. c_values (snd e) = Some w \<and> distinct w \<and> set w \<subseteq> set v)"
proof (cases "findConjunctsMatching b ''in'' (c_key c) = []")
  case True
  with assms show ?thesis by (simp add: covers_conjunct_def)
next
  case False
  define f where "f = (\<lambda>(ident :: string, inConjunct :: conjunct).
      case c_values inConjunct of
        None \<Rightarrow> Inl TypeError
      | Some w \<Rightarrow> Inr (length w = length (intersection (c_values inConjunct) (c_values c))))"
  have unfold: "covers_conjunct b c = every f (findConjunctsMatching b ''in'' (c_key c))"
    using assms False by (simp add: covers_conjunct_def f_def)
  have element:
    "f e = Inr True \<longleftrightarrow> (\<exists>w. c_values (snd e) = Some w \<and> distinct w \<and> set w \<subseteq> set v)" for e
    by (cases e) (simp add: f_def assms(2) length_intersection_first split: option.splits)
  show ?thesis
    using False by (simp add: unfold every_True_iff element)
qed

lemma covers_conjunct_not_in:
  assumes "c_operator c = Some ''not in''" and "c_values c = Some v" and "\<not> hasConjunct b c"
  shows "covers_conjunct b c = Inr True \<longleftrightarrow>
           findConjunctsMatching b ''not in'' (c_key c) \<noteq> []
           \<and> (\<forall>e \<in> set (findConjunctsMatching b ''not in'' (c_key c)).
                 distinct v \<and> set v \<subseteq> set (value_list (snd e)))"
proof (cases "findConjunctsMatching b ''not in'' (c_key c) = []")
  case True
  with assms show ?thesis by (simp add: covers_conjunct_def)
next
  case False
  define f where "f = (\<lambda>(ident :: string, notInConjunct :: conjunct).
      case c_values c of
        None \<Rightarrow> Inl TypeError
      | Some v \<Rightarrow> Inr (length v = length (intersection (c_values notInConjunct) (c_values c))))"
  have unfold: "covers_conjunct b c = every f (findConjunctsMatching b ''not in'' (c_key c))"
    using assms False by (simp add: covers_conjunct_def f_def)
  have element: "f e = Inr True \<longleftrightarrow> distinct v \<and> set v \<subseteq> set (value_list (snd e))" for e
  proof (cases e)
    case (Pair ident notInConjunct)
    show ?thesis
    proof (cases "c_values notInConjunct")
      case None
      with Pair show ?thesis
        by (auto simp: f_def assms(2) intersection_def value_list_def)
    next
      case (Some w)
      with Pair show ?thesis
        by (simp add: f_def assms(2) length_intersection_second value_list_def)
    qed
  qed
  show ?thesis
    using False by (simp add: unfold every_True_iff element)
qed

subsection \<open>The examples of the specification, for any key\<close>

lemma covers_in_examples:
  "covers (one_conjunct k ''in'' [''a'', ''b'']) (one_conjunct k ''in'' [''a'']) = Inr True"
  "covers (one_conjunct k ''in'' [''a'', ''b'']) (one_conjunct k ''in'' [''b'']) = Inr True"
  "covers (one_conjunct k ''in'' [''a'', ''b'']) (one_conjunct k ''in'' [''a'', ''b'']) = Inr True"
  "covers (one_conjunct k ''in'' [''a'', ''b'']) (one_conjunct k ''in'' [''a'', ''c'']) = Inr False"
  by (simp_all add: eval_defs)

lemma covers_not_in_examples:
  "covers (one_conjunct k ''not in'' [''a'']) (one_conjunct k ''not in'' [''a'', ''b'']) = Inr True"
  "covers (one_conjunct k ''not in'' [''a'']) (one_conjunct k ''not in'' [''a'', ''c'']) = Inr True"
  "covers (one_conjunct k ''not in'' [''a'']) (one_conjunct k ''not in'' [''b'']) = Inr False"
  by (simp_all add: eval_defs)

text \<open>
  C1 (amended). \<^verbatim>\<open>covers\<close> returns true exactly when the covering selector has a
  constraint and each of its constraints is counted as covered. An \<^verbatim>\<open>In\<close> constraint
  In(K,V) with no exact-id match in B is counted as covered iff B holds at least one
  \<^verbatim>\<open>In\<close> constraint on K and every In(K,W) stored in B has a value list W without a
  repeated value whose values all occur in V (that is, \<^verbatim>\<open>intersection(W,V)\<close> is W). So
  In(K,[a,b]) covers In(K,[a]), In(K,[b]) and In(K,[a,b]), and not In(K,[a,c]).
\<close>

theorem covers_in_conjunct:
  "(covers a b = Inr True \<longleftrightarrow>
      conjuncts a \<noteq> [] \<and> list_all (\<lambda>e. covers_conjunct b (snd e) = Inr True) (conjuncts a))
   \<and> (c_operator c = Some ''in'' \<and> c_values c = Some v \<and> \<not> hasConjunct b c \<longrightarrow>
        (covers_conjunct b c = Inr True \<longleftrightarrow>
           findConjunctsMatching b ''in'' (c_key c) \<noteq> []
           \<and> (\<forall>e \<in> set (findConjunctsMatching b ''in'' (c_key c)).
                 \<exists>w. c_values (snd e) = Some w \<and> distinct w \<and> set w \<subseteq> set v
                     \<and> intersection (Some w) (Some v) = w)))
   \<and> covers (one_conjunct k ''in'' [''a'', ''b'']) (one_conjunct k ''in'' [''a'']) = Inr True
   \<and> covers (one_conjunct k ''in'' [''a'', ''b'']) (one_conjunct k ''in'' [''b'']) = Inr True
   \<and> covers (one_conjunct k ''in'' [''a'', ''b'']) (one_conjunct k ''in'' [''a'', ''b'']) = Inr True
   \<and> covers (one_conjunct k ''in'' [''a'', ''b'']) (one_conjunct k ''in'' [''a'', ''c'']) = Inr False"
proof (intro conjI impI)
  show "covers a b = Inr True \<longleftrightarrow>
      conjuncts a \<noteq> [] \<and> list_all (\<lambda>e. covers_conjunct b (snd e) = Inr True) (conjuncts a)"
    by (simp add: covers_True_iff list_all_iff)
next
  assume a: "c_operator c = Some ''in'' \<and> c_values c = Some v \<and> \<not> hasConjunct b c"
  have "(\<exists>w. c_values (snd e) = Some w \<and> distinct w \<and> set w \<subseteq> set v
            \<and> intersection (Some w) (Some v) = w)
        \<longleftrightarrow> (\<exists>w. c_values (snd e) = Some w \<and> distinct w \<and> set w \<subseteq> set v)"
    for e :: "string \<times> conjunct"
    by (auto simp: intersection_eq_first)
  with a show "covers_conjunct b c = Inr True \<longleftrightarrow>
           findConjunctsMatching b ''in'' (c_key c) \<noteq> []
           \<and> (\<forall>e \<in> set (findConjunctsMatching b ''in'' (c_key c)).
                 \<exists>w. c_values (snd e) = Some w \<and> distinct w \<and> set w \<subseteq> set v
                     \<and> intersection (Some w) (Some v) = w)"
    by (simp add: covers_conjunct_in)
qed (simp_all only: covers_in_examples)

theorem covers_in_conjunct_witness:
  "c_operator (new_conjunct ''tier'' (Some ''in'') (Some [''frontend'', ''backend''])) = Some ''in''
   \<and> c_values (new_conjunct ''tier'' (Some ''in'') (Some [''frontend'', ''backend'']))
       = Some [''frontend'', ''backend'']
   \<and> \<not> hasConjunct (one_conjunct ''tier'' ''in'' [''frontend''])
         (new_conjunct ''tier'' (Some ''in'') (Some [''frontend'', ''backend'']))
   \<and> findConjunctsMatching (one_conjunct ''tier'' ''in'' [''frontend'']) ''in'' ''tier''
       = [(''tier-in-frontend'', stored_conjunct ''tier'' (Some ''in'') (Some [''frontend'']))]
   \<and> covers_conjunct (one_conjunct ''tier'' ''in'' [''frontend''])
        (new_conjunct ''tier'' (Some ''in'') (Some [''frontend'', ''backend''])) = Inr True
   \<and> covers (one_conjunct ''tier'' ''in'' [''frontend'', ''backend''])
        (one_conjunct ''tier'' ''in'' [''frontend'']) = Inr True
   \<and> covers (one_conjunct ''tier'' ''in'' [''frontend''])
        (one_conjunct ''tier'' ''in'' [''frontend'', ''backend'']) = Inr False"
  using covers_in_conjunct
    [of "one_conjunct ''tier'' ''in'' [''frontend'', ''backend'']"
        "one_conjunct ''tier'' ''in'' [''frontend'']"
        "new_conjunct ''tier'' (Some ''in'') (Some [''frontend'', ''backend''])"
        "[''frontend'', ''backend'']"]
  by (simp add: eval_defs)

theorem covers_in_repeated_value:
  "c_operator (new_conjunct ''k'' (Some ''in'') (Some [''a''])) = Some ''in''
   \<and> \<not> hasConjunct (one_conjunct ''k'' ''in'' [''a'', ''a''])
         (new_conjunct ''k'' (Some ''in'') (Some [''a'']))
   \<and> map snd (findConjunctsMatching (one_conjunct ''k'' ''in'' [''a'', ''a'']) ''in'' ''k'')
       = [stored_conjunct ''k'' (Some ''in'') (Some [''a'', ''a''])]
   \<and> set [''a'', ''a''] \<subseteq> set [''a'']
   \<and> intersection (Some [''a'', ''a'']) (Some [''a'']) = [''a'']
   \<and> covers_conjunct (one_conjunct ''k'' ''in'' [''a'', ''a''])
        (new_conjunct ''k'' (Some ''in'') (Some [''a''])) = Inr False
   \<and> covers (one_conjunct ''k'' ''in'' [''a'']) (one_conjunct ''k'' ''in'' [''a'', ''a''])
       = Inr False"
  by (simp add: eval_defs)

text \<open>
  C2 (amended). A \<^verbatim>\<open>NotIn\<close> constraint NotIn(K,V) with no exact-id match in B is counted
  as covered iff B holds at least one \<^verbatim>\<open>NotIn\<close> constraint on K, V has no repeated value,
  and the values of V all occur in W for every NotIn(K,W) stored in B (that is,
  \<^verbatim>\<open>intersection(W,V)\<close> has the length of V). So NotIn(K,[a]) covers NotIn(K,[a,b]) and
  NotIn(K,[a,c]), and not NotIn(K,[b]).
\<close>

theorem covers_not_in_conjunct:
  "(c_operator c = Some ''not in'' \<and> c_values c = Some v \<and> \<not> hasConjunct b c \<longrightarrow>
        (covers_conjunct b c = Inr True \<longleftrightarrow>
           findConjunctsMatching b ''not in'' (c_key c) \<noteq> []
           \<and> (\<forall>e \<in> set (findConjunctsMatching b ''not in'' (c_key c)).
                 distinct v \<and> set v \<subseteq> set (value_list (snd e))
                 \<and> length (intersection (c_values (snd e)) (Some v)) = length v)))
   \<and> covers (one_conjunct k ''not in'' [''a'']) (one_conjunct k ''not in'' [''a'', ''b'']) = Inr True
   \<and> covers (one_conjunct k ''not in'' [''a'']) (one_conjunct k ''not in'' [''a'', ''c'']) = Inr True
   \<and> covers (one_conjunct k ''not in'' [''a'']) (one_conjunct k ''not in'' [''b'']) = Inr False"
proof (intro conjI impI)
  assume a: "c_operator c = Some ''not in'' \<and> c_values c = Some v \<and> \<not> hasConjunct b c"
  have "distinct v \<and> set v \<subseteq> set (value_list e)
          \<and> length (intersection (c_values e) (Some v)) = length v
        \<longleftrightarrow> distinct v \<and> set v \<subseteq> set (value_list e)" for e :: conjunct
  proof (cases "c_values e")
    case None
    then show ?thesis by (auto simp: value_list_def intersection_def)
  next
    case (Some w)
    have "length v = length (intersection (Some w) (Some v)) \<longleftrightarrow> distinct v \<and> set v \<subseteq> set w"
      by (rule length_intersection_second)
    with Some show ?thesis by (auto simp: value_list_def)
  qed
  with a show "covers_conjunct b c = Inr True \<longleftrightarrow>
           findConjunctsMatching b ''not in'' (c_key c) \<noteq> []
           \<and> (\<forall>e \<in> set (findConjunctsMatching b ''not in'' (c_key c)).
                 distinct v \<and> set v \<subseteq> set (value_list (snd e))
                 \<and> length (intersection (c_values (snd e)) (Some v)) = length v)"
    by (simp add: covers_conjunct_not_in)
qed (simp_all only: covers_not_in_examples)

theorem covers_not_in_conjunct_witness:
  "c_operator (new_conjunct ''env'' (Some ''not in'') (Some [''prod''])) = Some ''not in''
   \<and> c_values (new_conjunct ''env'' (Some ''not in'') (Some [''prod''])) = Some [''prod'']
   \<and> \<not> hasConjunct (one_conjunct ''env'' ''not in'' [''prod'', ''test''])
         (new_conjunct ''env'' (Some ''not in'') (Some [''prod'']))
   \<and> findConjunctsMatching (one_conjunct ''env'' ''not in'' [''prod'', ''test'']) ''not in'' ''env''
       = [(''env-not in-prod,test'', stored_conjunct ''env'' (Some ''not in'') (Some [''prod'', ''test'']))]
   \<and> covers_conjunct (one_conjunct ''env'' ''not in'' [''prod'', ''test''])
        (new_conjunct ''env'' (Some ''not in'') (Some [''prod''])) = Inr True"
  using covers_not_in_conjunct
    [of "new_conjunct ''env'' (Some ''not in'') (Some [''prod''])" "[''prod'']"
        "one_conjunct ''env'' ''not in'' [''prod'', ''test'']"]
  by (simp add: eval_defs)

theorem covers_not_in_repeated_value:
  "c_operator (new_conjunct ''k'' (Some ''not in'') (Some [''a'', ''a''])) = Some ''not in''
   \<and> \<not> hasConjunct (one_conjunct ''k'' ''not in'' [''a''])
         (new_conjunct ''k'' (Some ''not in'') (Some [''a'', ''a'']))
   \<and> map snd (findConjunctsMatching (one_conjunct ''k'' ''not in'' [''a'']) ''not in'' ''k'')
       = [stored_conjunct ''k'' (Some ''not in'') (Some [''a''])]
   \<and> set [''a'', ''a''] \<subseteq> set [''a'']
   \<and> intersection (Some [''a'']) (Some [''a'', ''a'']) = [''a'']
   \<and> covers_conjunct (one_conjunct ''k'' ''not in'' [''a''])
        (new_conjunct ''k'' (Some ''not in'') (Some [''a'', ''a''])) = Inr False
   \<and> covers (one_conjunct ''k'' ''not in'' [''a'', ''a'']) (one_conjunct ''k'' ''not in'' [''a''])
       = Inr False"
  by (simp add: eval_defs)

section \<open>The collection of conjuncts\<close>

subsection \<open>Ids stay unique\<close>

lemma count_key_distinct:
  "distinct (map fst al) \<Longrightarrow> k \<in> fst ` set al \<Longrightarrow> length (filter (\<lambda>e. fst e = k) al) = 1"
proof (induction al)
  case Nil
  then show ?case by simp
next
  case (Cons a al)
  show ?case
  proof (cases "fst a = k")
    case True
    with Cons.prems have "k \<notin> fst ` set al" by auto
    then have "filter (\<lambda>e. fst e = k) al = []"
      by (auto simp: filter_empty_conv)
    with True show ?thesis by simp
  next
    case False
    with Cons show ?thesis by auto
  qed
qed

lemma ids_unique_addConjunct: "ids_unique s \<Longrightarrow> ids_unique (fst (addConjunct s k opr vs))"
  by (simp add: ids_unique_def addConjunct_state distinct_update)

lemma ids_unique_removeConjunct: "ids_unique s \<Longrightarrow> ids_unique (removeConjunct s a)"
  by (simp add: ids_unique_def removeConjunct_def distinct_delete
      split: remove_arg.splits option.splits)

lemma ids_unique_clearConjuncts: "ids_unique (clearConjuncts s)"
  by (simp add: ids_unique_def clearConjuncts_def)

lemma ids_unique_apply: "ids_unique s \<Longrightarrow> ids_unique (apply_operation s x)"
  by (cases x)
    (simp_all add: ids_unique_addConjunct ids_unique_removeConjunct ids_unique_clearConjuncts)

lemma ids_unique_run: "ids_unique s \<Longrightarrow> ids_unique (run s ops)"
  unfolding run_def by (induction ops arbitrary: s) (simp_all add: ids_unique_apply)

lemma ids_unique_empty: "ids_unique \<lparr>conjuncts = [], emptySelectsAll = b\<rparr>"
  by (simp add: ids_unique_def)

lemma ids_unique_add_each: "add_each t xs = Inr t' \<Longrightarrow> ids_unique t \<Longrightarrow> ids_unique t'"
  by (erule add_each_fst) (simp_all add: ids_unique_addConjunct)

lemma ids_unique_LabelSelector:
  assumes "LabelSelector sel esa = Inr s"
  shows "ids_unique s"
  using assms
  by (auto simp: LabelSelector_def Let_def ids_unique_empty
      split: option.splits if_splits sum.splits
      dest: ids_unique_add_each[OF _ ids_unique_empty] ids_unique_add_each)

subsection \<open>Entries stay under their own ids\<close>

lemma list_all_update:
  "list_all P al \<Longrightarrow> P (k, v) \<Longrightarrow> list_all P (AList.update k v al)"
  by (induction al) auto

lemma stored_by_id_addConjunct: "stored_by_id s \<Longrightarrow> stored_by_id (fst (addConjunct s k opr vs))"
  by (simp add: stored_by_id_def addConjunct_state list_all_update stored_conjunct_def)

lemma stored_by_id_add_each: "add_each t xs = Inr t' \<Longrightarrow> stored_by_id t \<Longrightarrow> stored_by_id t'"
  by (erule add_each_fst) (simp_all add: stored_by_id_addConjunct)

lemma stored_by_id_LabelSelector:
  assumes "LabelSelector sel esa = Inr s"
  shows "stored_by_id s"
proof -
  have start: "stored_by_id \<lparr>conjuncts = [], emptySelectsAll = b\<rparr>" for b
    by (simp add: stored_by_id_def)
  from assms show ?thesis
    by (auto simp: LabelSelector_def Let_def start split: option.splits if_splits sum.splits
        dest: stored_by_id_add_each[OF _ start] stored_by_id_add_each)
qed

lemma list_all_delete: "list_all P al \<Longrightarrow> list_all P (AList.delete k al)"
  by (simp add: AList.delete_eq list_all_iff)

lemma stored_by_id_removeConjunct: "stored_by_id s \<Longrightarrow> stored_by_id (removeConjunct s a)"
  by (simp add: stored_by_id_def removeConjunct_def list_all_delete
      split: remove_arg.splits option.splits)

lemma stored_by_id_apply:
  assumes "stored_by_id s"
  shows "stored_by_id (apply_operation s x)"
proof (cases x)
  case (Add k opr vs)
  with assms show ?thesis by (simp add: stored_by_id_addConjunct)
next
  case (Remove a)
  with assms show ?thesis by (simp add: stored_by_id_removeConjunct)
next
  case Clear
  then show ?thesis by (simp add: clearConjuncts_def stored_by_id_def)
qed

lemma stored_by_id_run: "stored_by_id s \<Longrightarrow> stored_by_id (run s ops)"
  unfolding run_def by (induction ops arbitrary: s) (simp_all add: stored_by_id_apply)

text \<open>With every entry stored under its own id, the \<^verbatim>\<open>id\<close> fields are distinct as well.\<close>

lemma id_fields_distinct:
  assumes "ids_unique s" and "stored_by_id s"
  shows "distinct (map (\<lambda>e. c_id (snd e)) (conjuncts s))"
proof -
  from assms(2) have "map (\<lambda>e. c_id (snd e)) (conjuncts s) = map Some (map fst (conjuncts s))"
    by (auto simp: stored_by_id_def list_all_iff)
  with assms(1) show ?thesis
    by (simp add: ids_unique_def distinct_map del: map_map)
qed

lemma addConjunct_twice:
  "fst (addConjunct (fst (addConjunct s k opr vs)) k opr vs) = fst (addConjunct s k opr vs)"
  by (simp add: addConjunct_state)

text \<open>
  C8. Calling \<^verbatim>\<open>addConjunct(k,o,v)\<close> twice with the same arguments leaves the collection
  as the first call left it, with exactly one entry under the derived id, which is the
  conjunct of the call. Every sequence of add, remove and clear operations keeps the ids
  of a collection unique: no id names two entries, every entry stays under the id derived
  from it, and no two entries carry the same \<^verbatim>\<open>id\<close> field. Construction yields such a
  collection. A call with a value list returns the conjunct it stored.
\<close>

theorem addConjunct_idempotent_ids_unique:
  "(ids_unique s \<longrightarrow>
      fst (addConjunct (fst (addConjunct s k opr (Some v))) k opr (Some v))
        = fst (addConjunct s k opr (Some v))
      \<and> length (filter (\<lambda>e. fst e = getIdForConjunct (new_conjunct k opr (Some v)))
                 (conjuncts (fst (addConjunct (fst (addConjunct s k opr (Some v))) k opr (Some v)))))
          = 1
      \<and> map_of (conjuncts (fst (addConjunct (fst (addConjunct s k opr (Some v))) k opr (Some v))))
          (getIdForConjunct (new_conjunct k opr (Some v)))
          = Some (stored_conjunct k opr (Some v)))
   \<and> (ids_unique s \<longrightarrow> ids_unique (run s ops))
   \<and> (ids_unique s \<and> stored_by_id s \<longrightarrow>
        stored_by_id (run s ops) \<and> distinct (map (\<lambda>e. c_id (snd e)) (conjuncts (run s ops))))
   \<and> (LabelSelector sel esa = Inr s0 \<longrightarrow> ids_unique s0 \<and> stored_by_id s0)
   \<and> snd (addConjunct s k opr (Some v)) = Inr (stored_conjunct k opr (Some v))"
proof (intro conjI impI)
  show "fst (addConjunct (fst (addConjunct s k opr (Some v))) k opr (Some v))
        = fst (addConjunct s k opr (Some v))"
    by (rule addConjunct_twice)
next
  show "snd (addConjunct s k opr (Some v)) = Inr (stored_conjunct k opr (Some v))"
    by (rule addConjunct_returns)
next
  assume u: "ids_unique s"
  let ?i = "getIdForConjunct (new_conjunct k opr (Some v))"
  let ?al = "AList.update ?i (stored_conjunct k opr (Some v)) (conjuncts s)"
  from u have "distinct (map fst ?al)"
    by (simp add: ids_unique_def distinct_update)
  moreover have "?i \<in> fst ` set ?al"
    by (simp add: dom_update)
  ultimately have "length (filter (\<lambda>e. fst e = ?i) ?al) = 1"
    by (rule count_key_distinct)
  then show "length (filter (\<lambda>e. fst e = ?i)
               (conjuncts (fst (addConjunct (fst (addConjunct s k opr (Some v))) k opr (Some v)))))
             = 1"
    by (simp add: addConjunct_twice) (simp add: addConjunct_state)
next
  show "map_of (conjuncts (fst (addConjunct (fst (addConjunct s k opr (Some v))) k opr (Some v))))
          (getIdForConjunct (new_conjunct k opr (Some v)))
          = Some (stored_conjunct k opr (Some v))"
    by (simp add: addConjunct_twice) (simp add: addConjunct_state update_conv')
next
  assume "ids_unique s"
  then show "ids_unique (run s ops)" by (rule ids_unique_run)
next
  assume a: "ids_unique s \<and> stored_by_id s"
  then show st: "stored_by_id (run s ops)" by (simp add: stored_by_id_run)
  from a have "ids_unique (run s ops)" by (simp add: ids_unique_run)
  then show "distinct (map (\<lambda>e. c_id (snd e)) (conjuncts (run s ops)))"
    using st by (rule id_fields_distinct)
next
  assume "LabelSelector sel esa = Inr s0"
  then show "ids_unique s0" and "stored_by_id s0"
    by (rule ids_unique_LabelSelector stored_by_id_LabelSelector)+
qed

theorem addConjunct_idempotent_ids_unique_witness:
  "ids_unique (one_conjunct ''app'' ''in'' [''web''])
   \<and> stored_by_id (one_conjunct ''app'' ''in'' [''web''])
   \<and> conjuncts (fst (addConjunct
        (fst (addConjunct (one_conjunct ''app'' ''in'' [''web'']) ''app'' (Some ''in'') (Some [''web''])))
        ''app'' (Some ''in'') (Some [''web''])))
       = [(''app-in-web'', stored_conjunct ''app'' (Some ''in'') (Some [''web'']))]
   \<and> ids_unique (run (one_conjunct ''app'' ''in'' [''web''])
        [Add ''tier'' (Some ''exists'') (Some []), Remove (ConjunctId ''app-in-web''),
         Add ''tier'' (Some ''exists'') (Some []), Clear, Add ''env'' (Some ''not in'') (Some [''prod''])])
   \<and> LabelSelector (Some \<lparr>matchLabels = Some [(''app'', ''web'')], matchExpressions = None, entries = []\<rparr>)
        None = Inr (one_conjunct ''app'' ''in'' [''web''])"
  using addConjunct_idempotent_ids_unique
    [of "one_conjunct ''app'' ''in'' [''web'']" "''app''" "Some ''in''" "[''web'']"
        "[Add ''tier'' (Some ''exists'') (Some []), Remove (ConjunctId ''app-in-web''),
          Add ''tier'' (Some ''exists'') (Some []), Clear, Add ''env'' (Some ''not in'') (Some [''prod''])]"
        "Some \<lparr>matchLabels = Some [(''app'', ''web'')], matchExpressions = None, entries = []\<rparr>"
        None "one_conjunct ''app'' ''in'' [''web'']"]
  by (simp add: eval_defs ids_unique_def stored_by_id_def)

subsection \<open>Ids and the order of values\<close>

lemma comma_split:
  assumes "no_comma x" and "no_comma y" and "x @ CHR '','' # r = y @ CHR '','' # r'"
  shows "x = y \<and> r = r'"
proof -
  have tx: "takeWhile (\<lambda>ch. ch \<noteq> CHR '','') (x @ CHR '','' # r) = x"
    using assms(1) by (auto simp: no_comma_def takeWhile_tail)
  have ty: "takeWhile (\<lambda>ch. ch \<noteq> CHR '','') (y @ CHR '','' # r') = y"
    using assms(2) by (auto simp: no_comma_def takeWhile_tail)
  from tx ty assms(3) have "x = y" by simp
  with assms(3) show ?thesis by simp
qed

text \<open>On lists of one length whose strings hold no comma, \<^verbatim>\<open>join(",")\<close> is injective.\<close>

lemma join_inject:
  assumes "length xs = length ys"
    and "\<forall>v \<in> set xs. no_comma v" and "\<forall>v \<in> set ys. no_comma v"
    and "join '','' xs = join '','' ys"
  shows "xs = ys"
  using assms
proof (induction xs ys rule: list_induct2)
  case Nil
  then show ?case by simp
next
  case (Cons x xs y ys)
  show ?case
  proof (cases xs)
    case Nil
    with Cons show ?thesis by simp
  next
    case xs: (Cons x' xs')
    with Cons.hyps obtain y' ys' where ys: "ys = y' # ys'" by (cases ys) auto
    from Cons.prems xs ys
    have "x @ CHR '','' # join '','' xs = y @ CHR '','' # join '','' ys" by simp
    moreover from Cons.prems have "no_comma x" "no_comma y" by simp_all
    ultimately have "x = y \<and> join '','' xs = join '','' ys" by (rule comma_split[rotated 2])
    with Cons show ?thesis by simp
  qed
qed

lemma ids_differ:
  assumes "\<forall>v \<in> set vs1. no_comma v" and "\<forall>v \<in> set vs2. no_comma v"
    and "mset vs1 = mset vs2" and "vs1 \<noteq> vs2"
  shows "getIdForConjunct (new_conjunct k opr (Some vs1))
           \<noteq> getIdForConjunct (new_conjunct k opr (Some vs2))"
proof
  assume "getIdForConjunct (new_conjunct k opr (Some vs1))
            = getIdForConjunct (new_conjunct k opr (Some vs2))"
  then have "join '','' vs1 = join '','' vs2"
    by (simp add: getIdForConjunct_def new_conjunct_def)
  moreover from assms(3) have "length vs1 = length vs2" by (rule mset_eq_length)
  ultimately have "vs1 = vs2" using assms(1,2) by (intro join_inject)
  with assms(4) show False by simp
qed

text \<open>
  C9 (amended). Two constraints with the same key and operator whose value lists hold
  the same values in different orders, none of the values containing a comma, have
  distinct ids: a selector holding one of them does not have the other as a conjunct,
  and adding the other makes a second entry.
\<close>

theorem ids_differ_by_order:
  assumes "\<forall>v \<in> set vs1. no_comma v" and "\<forall>v \<in> set vs2. no_comma v"
    and "mset vs1 = mset vs2" and "vs1 \<noteq> vs2"
  shows "getIdForConjunct (new_conjunct k opr (Some vs1))
           \<noteq> getIdForConjunct (new_conjunct k opr (Some vs2))
         \<and> \<not> hasConjunct (fst (addConjunct \<lparr>conjuncts = [], emptySelectsAll = b\<rparr> k opr (Some vs1)))
               (new_conjunct k opr (Some vs2))
         \<and> map fst (conjuncts (fst (addConjunct
               (fst (addConjunct \<lparr>conjuncts = [], emptySelectsAll = b\<rparr> k opr (Some vs1)))
               k opr (Some vs2))))
             = [getIdForConjunct (new_conjunct k opr (Some vs1)),
                getIdForConjunct (new_conjunct k opr (Some vs2))]"
proof -
  have d: "getIdForConjunct (new_conjunct k opr (Some vs1))
             \<noteq> getIdForConjunct (new_conjunct k opr (Some vs2))"
    using assms by (rule ids_differ)
  then show ?thesis
    by (simp add: addConjunct_state hasConjunct_def)
qed

theorem ids_differ_by_order_witness:
  "list_all no_comma [''a'', ''b''] \<and> list_all no_comma [''b'', ''a'']
   \<and> mset [''a'', ''b''] = mset [''b'', ''a''] \<and> [''a'', ''b''] \<noteq> [''b'', ''a'']
   \<and> getIdForConjunct (new_conjunct ''k'' (Some ''in'') (Some [''a'', ''b''])) = ''k-in-a,b''
   \<and> getIdForConjunct (new_conjunct ''k'' (Some ''in'') (Some [''b'', ''a''])) = ''k-in-b,a''
   \<and> \<not> hasConjunct (one_conjunct ''k'' ''in'' [''a'', ''b''])
         (new_conjunct ''k'' (Some ''in'') (Some [''b'', ''a'']))"
  using ids_differ_by_order [of "[''a'', ''b'']" "[''b'', ''a'']" "''k''" "Some ''in''" False]
  by (simp add: eval_defs no_comma_def)

theorem ids_collide_with_comma:
  "mset [''a'', ''a,a''] = mset [''a,a'', ''a'']
   \<and> [''a'', ''a,a''] \<noteq> [''a,a'', ''a'']
   \<and> getIdForConjunct (new_conjunct ''k'' (Some ''in'') (Some [''a'', ''a,a''])) = ''k-in-a,a,a''
   \<and> getIdForConjunct (new_conjunct ''k'' (Some ''in'') (Some [''a,a'', ''a''])) = ''k-in-a,a,a''
   \<and> hasConjunct (one_conjunct ''k'' ''in'' [''a'', ''a,a''])
       (new_conjunct ''k'' (Some ''in'') (Some [''a,a'', ''a'']))"
  by (simp add: eval_defs)

section \<open>Export and construction\<close>

lemma update_fresh: "k \<notin> fst ` set al \<Longrightarrow> AList.update k v al = al @ [(k, v)]"
  by (induction al) auto

lemma operator_round_trip:
  "known_operator opr \<Longrightarrow>
   operator_value
     (get_property OPERATOR_MAP (json_operator (get_property REVERSE_OPERATOR_MAP opr))) = opr"
  by (auto simp: known_operator_def get_property_def operator_value_def json_operator_def
      to_string_def OPERATOR_MAP_def REVERSE_OPERATOR_MAP_def Object_prototype_def)

lemma OPERATOR_MAP_range: "OPERATOR_MAP n = Some v \<Longrightarrow> known_operator (Some v)"
  by (auto simp: OPERATOR_MAP_def known_operator_def split: if_splits)

text \<open>A name that is no inherited member reads as one of the four operators or as nothing.\<close>

lemma known_operator_read:
  assumes "Object_prototype (to_string k) = None"
  shows "known_operator (operator_value (get_property OPERATOR_MAP k))"
proof (cases "OPERATOR_MAP (to_string k)")
  case None
  with assms show ?thesis
    by (simp add: get_property_def operator_value_def known_operator_def)
next
  case (Some v)
  then have "known_operator (Some v)" by (rule OPERATOR_MAP_range)
  with Some show ?thesis
    by (simp add: get_property_def operator_value_def)
qed

text \<open>A conjunct that a returning \<^verbatim>\<open>addConjunct\<close> call stored is what the same call stores again.\<close>

lemma stored_conjunct_self:
  assumes "c_id c = Some (getIdForConjunct c)" and "has_string c"
  shows "stored_conjunct (c_key c) (c_operator c) (c_values c) = c"
proof -
  have same_id:
    "getIdForConjunct (new_conjunct (c_key c) (c_operator c) (c_values c)) = getIdForConjunct c"
    by (simp add: getIdForConjunct_def new_conjunct_def split: option.splits)
  have same_string:
    "getStringForConjunct (new_conjunct (c_key c) (c_operator c) (c_values c))
       = getStringForConjunct c"
    by (simp add: getStringForConjunct_def new_conjunct_def split: option.splits)
  from assms(2) obtain str where "getStringForConjunct c = Inr str" and "c_string c = Some str"
    by (auto simp: has_string_def split: sum.splits)
  then have "stored_conjunct (c_key c) (c_operator c) (c_values c)
          = (new_conjunct (c_key c) (c_operator c) (c_values c))
              \<lparr>c_id := c_id c, c_string := c_string c\<rparr>"
    using assms(1) by (simp only: stored_conjunct_def same_id same_string sum.case)
  also have "\<dots> = c"
    by (cases c) (simp add: new_conjunct_def)
  finally show ?thesis .
qed

lemma add_each_exported:
  assumes "distinct (map fst (pre @ rest))"
    and "list_all (\<lambda>(ident, c). c_id c = Some ident \<and> getIdForConjunct c = ident) rest"
    and "list_all (\<lambda>(ident, c). has_string c \<and> known_operator (c_operator c)) rest"
  shows "add_each \<lparr>conjuncts = pre, emptySelectsAll = b\<rparr> (map exported rest)
           = Inr \<lparr>conjuncts = pre @ rest, emptySelectsAll = b\<rparr>"
  using assms
proof (induction rest arbitrary: pre)
  case Nil
  then show ?case by simp
next
  case (Cons e rest)
  obtain ident c where e: "e = (ident, c)" by (cases e)
  from Cons.prems e have c: "c_id c = Some (getIdForConjunct c)" "getIdForConjunct c = ident"
    "has_string c" "known_operator (c_operator c)"
    by simp_all
  from Cons.prems e have fresh: "ident \<notin> fst ` set pre" by auto
  let ?s = "\<lparr>conjuncts = pre, emptySelectsAll = b\<rparr>"
  have exp: "exported (ident, c) = (c_key c, c_operator c, c_values c)"
    using c(4) by (simp add: exported_def operator_round_trip)
  have same_id: "getIdForConjunct (new_conjunct (c_key c) (c_operator c) (c_values c)) = ident"
    using c(2) by (simp add: getIdForConjunct_def new_conjunct_def split: option.splits)
  have st: "fst (addConjunct ?s (c_key c) (c_operator c) (c_values c))
              = \<lparr>conjuncts = pre @ [(ident, c)], emptySelectsAll = b\<rparr>"
    using fresh
    by (simp add: addConjunct_state same_id stored_conjunct_self[OF c(1,3)] update_fresh)
  have same_string:
    "getStringForConjunct (new_conjunct (c_key c) (c_operator c) (c_values c))
       = getStringForConjunct c"
    by (simp add: getStringForConjunct_def new_conjunct_def split: option.splits)
  from c(3) obtain str where str: "getStringForConjunct c = Inr str"
    by (auto simp: has_string_def split: sum.splits)
  have res: "snd (addConjunct ?s (c_key c) (c_operator c) (c_values c)) = Inr c"
    by (simp add: addConjunct_result same_string str stored_conjunct_self[OF c(1,3)])
  have call: "addConjunct ?s (c_key c) (c_operator c) (c_values c)
                = (\<lparr>conjuncts = pre @ [(ident, c)], emptySelectsAll = b\<rparr>, Inr c)"
    using st res by (simp add: prod_eq_iff)
  have "add_each \<lparr>conjuncts = pre @ [(ident, c)], emptySelectsAll = b\<rparr> (map exported rest)
          = Inr \<lparr>conjuncts = (pre @ [(ident, c)]) @ rest, emptySelectsAll = b\<rparr>"
    using Cons.prems e by (intro Cons.IH) simp_all
  then show ?case
    using e by (simp add: exp call)
qed

lemma reparse_exportable:
  assumes "ids_unique s" and "stored_by_id s" and "exportable s"
  shows "reparse s esa = Inr (s\<lparr>emptySelectsAll := (case esa of None \<Rightarrow> False | Some b \<Rightarrow> b)\<rparr>)"
proof -
  have m: "(\<lambda>e. (e_key e, operator_value (get_property OPERATOR_MAP (e_operator e)), e_values e))
             \<circ> (\<lambda>(ident, c). \<lparr>e_key = c_key c,
                      e_operator = json_operator (get_property REVERSE_OPERATOR_MAP (c_operator c)),
                      e_values = c_values c\<rparr>)
           = exported"
    by (auto simp: fun_eq_iff exported_def)
  have "add_each \<lparr>conjuncts = [], emptySelectsAll = b\<rparr> (map exported (conjuncts s))
          = Inr \<lparr>conjuncts = [] @ conjuncts s, emptySelectsAll = b\<rparr>" for b
    using assms
    by (intro add_each_exported) (simp_all add: ids_unique_def stored_by_id_def exportable_def)
  then show ?thesis
    by (simp add: reparse_def LabelSelector_def exportJSON_def m Let_def)
qed

subsection \<open>Constructed selectors can be exported\<close>

lemma exportable_addConjunct:
  assumes "exportable s" and "known_operator opr" and "addConjunct s k opr vs = (s', Inr c)"
  shows "exportable s'"
proof -
  from assms(3) have s': "s' = fst (addConjunct s k opr vs)"
    and r: "snd (addConjunct s k opr vs) = Inr c"
    by simp_all
  from r obtain str where str: "getStringForConjunct (new_conjunct k opr vs) = Inr str"
    by (auto simp: addConjunct_result split: sum.splits)
  then have "has_string (stored_conjunct k opr vs)"
    by (simp add: has_string_def stored_conjunct_def)
  moreover have "c_operator (stored_conjunct k opr vs) = opr"
    by (simp add: stored_conjunct_def new_conjunct_def)
  ultimately show ?thesis
    using assms(1,2) by (simp add: s' exportable_def addConjunct_state list_all_update)
qed

lemma exportable_add_each:
  "add_each s xs = Inr s' \<Longrightarrow> exportable s \<Longrightarrow>
   list_all (\<lambda>(k, opr, vs). known_operator opr) xs \<Longrightarrow> exportable s'"
proof (induction s xs rule: add_each.induct)
  case (1 s)
  then show ?case by simp
next
  case (2 s k opr vs rest)
  obtain t res where a: "addConjunct s k opr vs = (t, res)"
    by (cases "addConjunct s k opr vs")
  show ?case
  proof (cases res)
    case (Inl e)
    with a "2.prems" show ?thesis by simp
  next
    case (Inr c)
    with a "2.prems" have "exportable t"
      by (intro exportable_addConjunct[of s opr k vs t c]) simp_all
    moreover from a Inr "2.prems" have "add_each t rest = Inr s'" by simp
    ultimately show ?thesis
      using "2.IH"[OF a[symmetric] Inr] "2.prems"(3) by simp
  qed
qed

lemma exportable_LabelSelector:
  assumes "LabelSelector sel esa = Inr s" and "plain_operators sel"
  shows "exportable s"
proof -
  have start: "exportable \<lparr>conjuncts = [], emptySelectsAll = b\<rparr>" for b
    by (simp add: exportable_def)
  have labels: "list_all (\<lambda>(k, opr, vs). known_operator opr)
      (map (\<lambda>(key, details). (key, Some ''in'', Some [details])) ml)" for ml :: "(string \<times> string) list"
    by (induction ml) (auto simp: known_operator_def)
  have expressions: "list_all (\<lambda>(k, opr, vs). known_operator opr)
      (map (\<lambda>e. (e_key e, operator_value (get_property OPERATOR_MAP (e_operator e)), e_values e)) me)"
    if "list_all (\<lambda>e. Object_prototype (to_string (e_operator e)) = None) me"
    for me :: "expression list"
    using that by (induction me) (auto simp: known_operator_read)
  have pairs: "list_all (\<lambda>(k, opr, vs). known_operator opr)
      (map (\<lambda>(key, details).
              (case details of
                 Some d \<Rightarrow> (key, Some ''in'', Some [d])
               | None \<Rightarrow> (key, Some ''exists'', Some []))) es)"
    for es :: "(string \<times> string option) list"
    by (induction es) (auto simp: known_operator_def split: option.splits)
  show ?thesis
  proof (cases sel)
    case None
    with assms show ?thesis by (auto simp: LabelSelector_def start)
  next
    case (Some j)
    show ?thesis
    proof (cases "matchLabels j \<noteq> None \<or> matchExpressions j \<noteq> None")
      case True
      with assms Some obtain t where
        t: "add_each \<lparr>conjuncts = [], emptySelectsAll = (case esa of None \<Rightarrow> False | Some b \<Rightarrow> b)\<rparr>
              (map (\<lambda>(key, details). (key, Some ''in'', Some [details]))
                 (case matchLabels j of None \<Rightarrow> [] | Some ml \<Rightarrow> ml)) = Inr t"
        and s: "add_each t
              (map (\<lambda>e. (e_key e, operator_value (get_property OPERATOR_MAP (e_operator e)), e_values e))
                 (case matchExpressions j of None \<Rightarrow> [] | Some me \<Rightarrow> me)) = Inr s"
        by (auto simp: LabelSelector_def Let_def split: sum.splits)
      from t have "exportable t"
        by (rule exportable_add_each) (simp_all add: start labels)
      moreover from assms(2) Some
      have "list_all (\<lambda>e. Object_prototype (to_string (e_operator e)) = None)
              (case matchExpressions j of None \<Rightarrow> [] | Some me \<Rightarrow> me)"
        by (simp add: plain_operators_def split: option.splits)
      ultimately show ?thesis
        using s by (intro exportable_add_each[OF s] expressions)
    next
      case False
      with assms Some have
        "add_each \<lparr>conjuncts = [], emptySelectsAll = (case esa of None \<Rightarrow> False | Some b \<Rightarrow> b)\<rparr>
           (map (\<lambda>(key, details).
                   (case details of
                      Some d \<Rightarrow> (key, Some ''in'', Some [d])
                    | None \<Rightarrow> (key, Some ''exists'', Some []))) (entries j)) = Inr s"
        by (auto simp: LabelSelector_def Let_def)
      then show ?thesis
        by (rule exportable_add_each) (simp_all add: start pairs)
    qed
  qed
qed

text \<open>
  C7 (amended). For a selector whose entries have unique ids, are stored under their
  own ids, carry their display strings and have one of the four operators (or the
  undefined operator that construction gives an unknown operator name), construction
  from the exported \<^verbatim>\<open>matchExpressions\<close> succeeds and yields the same collection, hence
  the same set of key, operator and values tuples. Every selector that construction
  returns has unique ids and entries stored under their own ids, and it is such a
  selector when no operator name of its description is a member inherited from
  \<^verbatim>\<open>Object.prototype\<close>, such as \<^verbatim>\<open>constructor\<close> or \<^verbatim>\<open>toString\<close>.
\<close>

theorem export_round_trip:
  "(ids_unique s \<and> stored_by_id s \<and> exportable s \<longrightarrow>
      reparse s esa = Inr (s\<lparr>emptySelectsAll := (esa = Some True)\<rparr>)
      \<and> (case reparse s esa of
           Inl e \<Rightarrow> False
         | Inr s' \<Rightarrow> conjuncts s' = conjuncts s \<and> set (tuples_of s') = set (tuples_of s)))
   \<and> (LabelSelector sel flag = Inr s0 \<longrightarrow>
        ids_unique s0 \<and> stored_by_id s0 \<and> (plain_operators sel \<longrightarrow> exportable s0))"
proof (intro conjI impI)
  assume a: "ids_unique s \<and> stored_by_id s \<and> exportable s"
  have flag: "(case esa of None \<Rightarrow> False | Some b \<Rightarrow> b) = (esa = Some True)"
    by (simp split: option.splits)
  from a have r: "reparse s esa = Inr (s\<lparr>emptySelectsAll := (esa = Some True)\<rparr>)"
    by (simp add: reparse_exportable flag)
  then show "reparse s esa = Inr (s\<lparr>emptySelectsAll := (esa = Some True)\<rparr>)" .
  from r show "case reparse s esa of
           Inl e \<Rightarrow> False
         | Inr s' \<Rightarrow> conjuncts s' = conjuncts s \<and> set (tuples_of s') = set (tuples_of s)"
    by (simp add: tuples_of_def)
next
  assume c: "LabelSelector sel flag = Inr s0"
  then show "ids_unique s0" and "stored_by_id s0"
    by (rule ids_unique_LabelSelector stored_by_id_LabelSelector)+
  assume "plain_operators sel"
  with c show "exportable s0" by (rule exportable_LabelSelector)
qed

theorem export_round_trip_witness:
  "LabelSelector
      (Some \<lparr>matchLabels = Some [(''app'', ''web'')],
             matchExpressions =
               Some [\<lparr>e_key = ''env'', e_operator = Some ''NotIn'', e_values = Some [''prod'']\<rparr>,
                     \<lparr>e_key = ''tier'', e_operator = Some ''Exists'', e_values = None\<rparr>,
                     \<lparr>e_key = ''zone'', e_operator = Some ''Within'', e_values = Some [''x'']\<rparr>],
             entries = []\<rparr>) None
     = Inr (run (one_conjunct ''app'' ''in'' [''web''])
              [Add ''env'' (Some ''not in'') (Some [''prod'']), Add ''tier'' (Some ''exists'') None,
               Add ''zone'' None (Some [''x''])])
   \<and> plain_operators
        (Some \<lparr>matchLabels = Some [(''app'', ''web'')],
               matchExpressions =
                 Some [\<lparr>e_key = ''env'', e_operator = Some ''NotIn'', e_values = Some [''prod'']\<rparr>,
                       \<lparr>e_key = ''tier'', e_operator = Some ''Exists'', e_values = None\<rparr>,
                       \<lparr>e_key = ''zone'', e_operator = Some ''Within'', e_values = Some [''x'']\<rparr>],
               entries = []\<rparr>)
   \<and> ids_unique (run (one_conjunct ''app'' ''in'' [''web''])
              [Add ''env'' (Some ''not in'') (Some [''prod'']), Add ''tier'' (Some ''exists'') None,
               Add ''zone'' None (Some [''x''])])
   \<and> stored_by_id (run (one_conjunct ''app'' ''in'' [''web''])
              [Add ''env'' (Some ''not in'') (Some [''prod'']), Add ''tier'' (Some ''exists'') None,
               Add ''zone'' None (Some [''x''])])
   \<and> exportable (run (one_conjunct ''app'' ''in'' [''web''])
              [Add ''env'' (Some ''not in'') (Some [''prod'']), Add ''tier'' (Some ''exists'') None,
               Add ''zone'' None (Some [''x''])])
   \<and> reparse (run (one_conjunct ''app'' ''in'' [''web''])
              [Add ''env'' (Some ''not in'') (Some [''prod'']), Add ''tier'' (Some ''exists'') None,
               Add ''zone'' None (Some [''x''])]) None
     = Inr (run (one_conjunct ''app'' ''in'' [''web''])
              [Add ''env'' (Some ''not in'') (Some [''prod'']), Add ''tier'' (Some ''exists'') None,
               Add ''zone'' None (Some [''x''])])
   \<and> tuples_of (run (one_conjunct ''app'' ''in'' [''web''])
              [Add ''env'' (Some ''not in'') (Some [''prod'']), Add ''tier'' (Some ''exists'') None,
               Add ''zone'' None (Some [''x''])])
     = [(''app'', Some ''in'', Some [''web'']), (''env'', Some ''not in'', Some [''prod'']),
        (''tier'', Some ''exists'', None), (''zone'', None, Some [''x''])]"
proof -
  let ?j = "Some \<lparr>matchLabels = Some [(''app'', ''web'')],
             matchExpressions =
               Some [\<lparr>e_key = ''env'', e_operator = Some ''NotIn'', e_values = Some [''prod'']\<rparr>,
                     \<lparr>e_key = ''tier'', e_operator = Some ''Exists'', e_values = None\<rparr>,
                     \<lparr>e_key = ''zone'', e_operator = Some ''Within'', e_values = Some [''x'']\<rparr>],
             entries = []\<rparr>"
  let ?s = "run (one_conjunct ''app'' ''in'' [''web''])
              [Add ''env'' (Some ''not in'') (Some [''prod'']), Add ''tier'' (Some ''exists'') None,
               Add ''zone'' None (Some [''x''])]"
  have built: "LabelSelector ?j None = Inr ?s"
    by (simp add: eval_defs)
  have tuples: "tuples_of ?s
     = [(''app'', Some ''in'', Some [''web'']), (''env'', Some ''not in'', Some [''prod'']),
        (''tier'', Some ''exists'', None), (''zone'', None, Some [''x''])]"
    by (simp add: eval_defs)
  have flag: "?s\<lparr>emptySelectsAll := (None = Some True)\<rparr> = ?s"
    by (simp add: eval_defs)
  have plain: "plain_operators ?j"
    by (simp add: plain_operators_def to_string_def Object_prototype_def)
  from export_round_trip [of ?s None ?j None ?s] built plain
  have "ids_unique ?s" and "stored_by_id ?s" and "exportable ?s"
    and "reparse ?s None = Inr (?s\<lparr>emptySelectsAll := (None = Some True)\<rparr>)"
    by blast+
  with built plain tuples flag show ?thesis by simp
qed

theorem export_unknown_operator:
  "tuples_of (one_conjunct ''k'' ''foo'' [''a'']) = [(''k'', Some ''foo'', Some [''a''])]
   \<and> exportJSON (one_conjunct ''k'' ''foo'' [''a''])
       = \<lparr>matchLabels = None,
          matchExpressions = Some [\<lparr>e_key = ''k'', e_operator = None, e_values = Some [''a'']\<rparr>],
          entries = []\<rparr>
   \<and> reparse (one_conjunct ''k'' ''foo'' [''a'']) None
       = Inr \<lparr>conjuncts = [(''k-undefined-a'', stored_conjunct ''k'' None (Some [''a'']))],
              emptySelectsAll = False\<rparr>
   \<and> tuples_of \<lparr>conjuncts = [(''k-undefined-a'', stored_conjunct ''k'' None (Some [''a'']))],
                 emptySelectsAll = False\<rparr>
       = [(''k'', None, Some [''a''])]
   \<and> set [(''k'', None, Some [''a''])] \<noteq> set [(''k'', Some ''foo'', Some [''a''])]
   \<and> LabelSelector
        (Some \<lparr>matchLabels = None,
               matchExpressions =
                 Some [\<lparr>e_key = ''k'', e_operator = Some ''constructor'', e_values = Some [''a'']\<rparr>],
               entries = []\<rparr>) None
       = Inr \<lparr>conjuncts =
                [(''k-function Object() { [native code] }-a'',
                  stored_conjunct ''k'' (Some ''function Object() { [native code] }'') (Some [''a'']))],
              emptySelectsAll = False\<rparr>
   \<and> reparse
        \<lparr>conjuncts =
           [(''k-function Object() { [native code] }-a'',
             stored_conjunct ''k'' (Some ''function Object() { [native code] }'') (Some [''a'']))],
         emptySelectsAll = False\<rparr> None
       = Inr \<lparr>conjuncts = [(''k-undefined-a'', stored_conjunct ''k'' None (Some [''a'']))],
              emptySelectsAll = False\<rparr>"
  by (simp add: eval_defs)

end
